theory Spec2Isabelle
  imports Complex_Main
begin

section \<open>Cross-chain recovery tool (src/recovery.js)\<close>

text \<open>
  The tool object of \<^verbatim>\<open>CrossChainRecoveryTool\<close> is a record that every method takes
  and returns. A method that throws returns \<open>Inl\<close> of the error together with the state
  as the throw left it. Amounts are satoshi counts, modelled as \<open>int\<close> (JavaScript
  numbers are exact on integers far beyond the total coin supply).
\<close>

subsection \<open>Data\<close>

text \<open>
  \<^verbatim>\<open>sourceCoin.type\<close>: the constructor admits the source coins btc, bch and
  btc-segwit, drops the modifier after the dash and prefixes \<^verbatim>\<open>t\<close> on testnet, so the
  type is one of the four keys of \<^verbatim>\<open>feeRates\<close>.
\<close>

datatype coin_type = BTC | BCH | TBTC | TBCH

datatype recovery_error =
    NoUnspents
  | SegwitUnspent
  | ErrorAddingUnspent string
  | NoTxInfo
  | CannotPayFees
  | AddOutputFailed
  | TypeError

record address_rec =
  a_address :: string
  a_chain :: int
  a_index :: int
  a_redeemScript :: "string option"
  a_witnessScript :: "string option"

record unspent =
  u_id :: string
  u_address :: string
  u_value :: int
  u_tx :: string
  u_nOut :: int
  u_witnessScript :: "string option"

text \<open>
  \<^verbatim>\<open>inputData\<close>: the v1 fields or the v2 fields. A path is kept as the list of its
  components, \<^verbatim>\<open>'/0/0' + path\<close> being \<open>[0, 0, chain, index]\<close>.
\<close>

datatype input_data =
    InputV1 (d_redeemScript: "string option") (d_witnessScript: "string option")
      (d_path: "int list") (d_chainPath: "int list") (d_txHash: string)
      (d_txOutputN: int) (d_txValue: int) (d_value: int)
  | InputV2 (d_redeemScript: "string option") (d_witnessScript: "string option")
      (d_index: int) (d_chain: int) (d_wallet: string) (d_fromWallet: string)

record tx_input =
  in_unspent :: unspent
  in_data :: input_data

record tx_output =
  o_address :: string
  o_value :: int
  o_wallet :: string
  o_change :: bool

record tx_info =
  inputAmount :: int
  outputAmount :: int
  spendAmount :: int
  inputs :: "tx_input list"
  outputs :: "tx_output list"
  externalOutputs :: "tx_output list"
  changeOutputs :: "tx_output list"
  minerFee :: int
  payGoFee :: int
  ti_unspents :: "tx_input list option"

text \<open>
  The tool: the two coin types, the recovery wallet's address records, version flag and
  id, the source wallet's id, the inputs (by unspent id) and outputs added to
  \<^verbatim>\<open>recoveryTx\<close> so far, \<^verbatim>\<open>this.unspents\<close> and \<^verbatim>\<open>this.txInfo\<close> (\<open>None\<close> while unset).
\<close>

record tool =
  sourceCoin :: coin_type
  recoveryCoin :: coin_type
  addresses_dest :: "address_rec list"
  dest_isV1 :: bool
  dest_id :: string
  source_id :: string
  recoveryTx_ins :: "string list"
  recoveryTx_outs :: "(string \<times> int) list"
  this_unspents :: "unspent list option"
  this_txInfo :: "tx_info option"

subsection \<open>buildInputs\<close>

definition truthy_str :: "string option \<Rightarrow> bool" where
  "truthy_str s = (case s of None \<Rightarrow> False | Some v \<Rightarrow> v \<noteq> [])"

definition new_txInfo :: tx_info where
  "new_txInfo = \<lparr> inputAmount = 0, outputAmount = 0, spendAmount = 0, inputs = [],
     outputs = [], externalOutputs = [], changeOutputs = [], minerFee = 0, payGoFee = 0,
     ti_unspents = None \<rparr>"

definition make_inputData :: "tool \<Rightarrow> address_rec \<Rightarrow> unspent \<Rightarrow> input_data" where
  "make_inputData t unspentAddress u =
     (if dest_isV1 t then
        InputV1 (a_redeemScript unspentAddress) (a_witnessScript unspentAddress)
          [0, 0, a_chain unspentAddress, a_index unspentAddress]
          [a_chain unspentAddress, a_index unspentAddress]
          (u_tx u) (u_nOut u) (u_value u) (u_value u)
      else
        InputV2 (a_redeemScript unspentAddress) (a_witnessScript unspentAddress)
          (a_index unspentAddress) (a_chain unspentAddress) (dest_id t) (dest_id t))"

text \<open>
  How the \<^verbatim>\<open>for (const unspent of unspents)\<close> loop of \<^verbatim>\<open>buildInputs\<close> ends: by a
  throw, by the \<^verbatim>\<open>return;\<close> inside it, or by running to the end of the list.
\<close>

datatype loop_exit = Thrown recovery_error | Returned | Completed tx_info

text \<open>
  \<open>addInput ins id\<close> tells whether the transaction builder accepts the outpoint \<open>id\<close>
  after the inputs \<open>ins\<close> (the builder is the bitcoin library's; it throws otherwise).
\<close>

fun buildInputs_loop ::
  "(string list \<Rightarrow> string \<Rightarrow> bool) \<Rightarrow> bool \<Rightarrow> unspent list \<Rightarrow> tx_info \<Rightarrow> tool
     \<Rightarrow> loop_exit \<times> tool" where
  "buildInputs_loop addInput noSegwit [] txInfo t = (Completed txInfo, t)"
| "buildInputs_loop addInput noSegwit (u # us) txInfo t =
     (if truthy_str (u_witnessScript u) \<and> noSegwit then (Thrown SegwitUnspent, t)
      else
        (case find (\<lambda>address. a_address address = u_address u) (addresses_dest t) of
          None \<Rightarrow> (Returned, t)
        | Some unspentAddress \<Rightarrow>
            if \<not> addInput (recoveryTx_ins t) (u_id u)
            then (Thrown (ErrorAddingUnspent (u_id u)), t)
            else
              buildInputs_loop addInput noSegwit us
                (txInfo\<lparr> inputs := inputs txInfo @
                            [\<lparr> in_unspent = u, in_data = make_inputData t unspentAddress u \<rparr>],
                          inputAmount := inputAmount txInfo + u_value u \<rparr>)
                (t\<lparr> recoveryTx_ins := recoveryTx_ins t @ [u_id u] \<rparr>)))"

text \<open>
  \<^verbatim>\<open>buildInputs(unspents)\<close>: the argument defaults to \<^verbatim>\<open>this.unspents\<close>. The value
  returned is the new \<^verbatim>\<open>txInfo\<close>, or \<open>None\<close> for the \<^verbatim>\<open>undefined\<close> of the bare
  \<^verbatim>\<open>return;\<close>, which also leaves \<^verbatim>\<open>this.txInfo\<close> as it was.
\<close>

definition buildInputs ::
  "(string list \<Rightarrow> string \<Rightarrow> bool) \<Rightarrow> unspent list option \<Rightarrow> tool
     \<Rightarrow> (recovery_error + tx_info option) \<times> tool" where
  "buildInputs addInput unspents t =
     (case (case unspents of Some us \<Rightarrow> Some us | None \<Rightarrow> this_unspents t) of
        None \<Rightarrow> (Inl NoUnspents, t)
      | Some us \<Rightarrow>
          (case buildInputs_loop addInput (recoveryCoin t = BTC \<and> sourceCoin t = BCH)
                  us new_txInfo t of
             (Thrown e, t') \<Rightarrow> (Inl e, t')
           | (Returned, t') \<Rightarrow> (Inr None, t')
           | (Completed txInfo, t') \<Rightarrow>
               (let txInfo' = txInfo\<lparr> ti_unspents := Some (inputs txInfo) \<rparr>
                in (Inr (Some txInfo'), t'\<lparr> this_txInfo := Some txInfo' \<rparr>))))"

subsection \<open>setFees\<close>

fun feeRates :: "coin_type \<Rightarrow> int" where
  "feeRates BCH = 20"
| "feeRates TBCH = 20"
| "feeRates BTC = 80"
| "feeRates TBTC = 80"

definition P2SH_INPUT_SIZE :: int where "P2SH_INPUT_SIZE = 295"
definition OUTPUT_SIZE :: int where "OUTPUT_SIZE = 34"
definition TX_OVERHEAD_SIZE :: int where "TX_OVERHEAD_SIZE = 10"

text \<open>
  \<^verbatim>\<open>setFees(recoveryTx)\<close>: the argument (the inputs of a transaction builder) defaults
  to \<^verbatim>\<open>this.recoveryTx\<close>. Storing the fee into an unset \<^verbatim>\<open>this.txInfo\<close> is a TypeError.
\<close>

definition setFees :: "string list option \<Rightarrow> tool \<Rightarrow> (recovery_error + int) \<times> tool" where
  "setFees recoveryTx t =
     (let ins = (case recoveryTx of Some r \<Rightarrow> r | None \<Rightarrow> recoveryTx_ins t);
          feeRate = feeRates (sourceCoin t);
          txSize = P2SH_INPUT_SIZE * int (length ins) + OUTPUT_SIZE + TX_OVERHEAD_SIZE;
          recoveryFee = feeRate * txSize
      in case this_txInfo t of
           None \<Rightarrow> (Inl TypeError, t)
         | Some txInfo \<Rightarrow>
             (Inr recoveryFee, t\<lparr> this_txInfo := Some (txInfo\<lparr> minerFee := recoveryFee \<rparr>) \<rparr>))"

subsection \<open>buildOutputs\<close>

text \<open>
  An optional numeric argument is \<open>None\<close> when it is not passed; \<^verbatim>\<open>a || b\<close> takes \<open>b\<close>
  when \<open>a\<close> is missing or zero.
\<close>

definition falsy :: "int option \<Rightarrow> bool" where
  "falsy a = (case a of None \<Rightarrow> True | Some v \<Rightarrow> v = 0)"

definition js_or :: "int option \<Rightarrow> int \<Rightarrow> int" where
  "js_or a b = (case a of None \<Rightarrow> b | Some v \<Rightarrow> if v = 0 then b else v)"

text \<open>
  \<open>addOutput address amount\<close> tells whether the transaction builder accepts the output;
  \<open>amountArg\<close> is the \<^verbatim>\<open>outputAmount\<close> parameter.
\<close>

definition buildOutputs ::
  "(string \<Rightarrow> int \<Rightarrow> bool) \<Rightarrow> string \<Rightarrow> int option \<Rightarrow> int option \<Rightarrow> tool
     \<Rightarrow> (recovery_error + unit) \<times> tool" where
  "buildOutputs addOutput recoveryAddress amountArg recoveryFee t =
     (if falsy amountArg \<and> this_txInfo t = None then (Inl NoTxInfo, t)
      else
        (case this_txInfo t of
           None \<Rightarrow> (Inl TypeError, t)
         | Some txInfo \<Rightarrow>
             (let amount = js_or amountArg
                             (inputAmount txInfo - js_or recoveryFee (minerFee txInfo));
                  txInfo1 = txInfo\<lparr> outputAmount := amount, spendAmount := amount \<rparr>;
                  t1 = t\<lparr> this_txInfo := Some txInfo1 \<rparr>
              in if amount \<le> 0 then (Inl CannotPayFees, t1)
                 else if \<not> addOutput recoveryAddress amount then (Inl AddOutputFailed, t1)
                 else
                   (let outputData = \<lparr> o_address = recoveryAddress, o_value = amount,
                                        o_wallet = source_id t, o_change = False \<rparr>;
                        txInfo2 = txInfo1\<lparr> outputs := outputs txInfo1 @ [outputData],
                                    externalOutputs := externalOutputs txInfo1 @ [outputData] \<rparr>
                    in (Inr (),
                        t1\<lparr> recoveryTx_outs := recoveryTx_outs t1 @ [(recoveryAddress, amount)],
                            this_txInfo := Some txInfo2 \<rparr>)))))"

subsection \<open>buildTransaction\<close>

text \<open>
  \<^verbatim>\<open>buildTransaction\<close> after its network steps: \<open>t\<close> is the tool once both wallets are
  set, \<open>found\<close> the unspents that \<^verbatim>\<open>findUnspents\<close> fetched. It stores them, then runs
  \<^verbatim>\<open>buildInputs()\<close>, \<^verbatim>\<open>setFees()\<close> and \<^verbatim>\<open>buildOutputs(recoveryAddress)\<close>, and returns
  \<^verbatim>\<open>this.recoveryTx\<close>.
\<close>

definition buildTransaction ::
  "(string list \<Rightarrow> string \<Rightarrow> bool) \<Rightarrow> (string \<Rightarrow> int \<Rightarrow> bool) \<Rightarrow> unspent list \<Rightarrow> string
     \<Rightarrow> tool \<Rightarrow> (recovery_error + string list \<times> (string \<times> int) list) \<times> tool" where
  "buildTransaction addInput addOutput found recoveryAddress t =
     (let t0 = t\<lparr> this_unspents := Some found \<rparr>
      in case buildInputs addInput None t0 of
           (Inl e, t1) \<Rightarrow> (Inl e, t1)
         | (Inr _, t1) \<Rightarrow>
             (case setFees None t1 of
                (Inl e, t2) \<Rightarrow> (Inl e, t2)
              | (Inr _, t2) \<Rightarrow>
                  (case buildOutputs addOutput recoveryAddress None None t2 of
                     (Inl e, t3) \<Rightarrow> (Inl e, t3)
                   | (Inr _, t3) \<Rightarrow> (Inr (recoveryTx_ins t3, recoveryTx_outs t3), t3))))"


section \<open>Split keys and their recovery (src/bgcl.js)\<close>

subsection \<open>The libraries the commands call\<close>

text \<open>
  The commands call a random pool (sjcl.random, fed by \<^verbatim>\<open>crypto.randomBytes\<close>), a
  password cipher (\<^verbatim>\<open>bitgo.encrypt\<close>, \<^verbatim>\<open>sjcl.decrypt\<close>), the secret sharing of
  secrets.js and the key derivation of \<^verbatim>\<open>bitcoin.HDNode\<close>. None of them is code of
  this repository, so they are parameters: a record of functions over a pool state
  \<open>'r\<close>. A call that throws returns \<open>None\<close>.
\<close>

record 'r lib =
  crypto_randomBytes :: "nat \<Rightarrow> 'r \<Rightarrow> string \<times> 'r"
  sjcl_addEntropy :: "string \<Rightarrow> nat \<Rightarrow> 'r \<Rightarrow> 'r"
  sjcl_randomWords :: "'r \<Rightarrow> string \<times> 'r"
  HDNode_fromSeedHex :: "string \<Rightarrow> (string \<times> string) option"
  bitgo_encrypt :: "string \<Rightarrow> string \<Rightarrow> string"
  sjcl_decrypt :: "string \<Rightarrow> string \<Rightarrow> string option"
  secrets_share :: "string \<Rightarrow> int \<Rightarrow> int \<Rightarrow> string list option"
  secrets_combine :: "string list \<Rightarrow> string option"

text \<open>
  \<open>crypto_randomBytes L nBytes\<close> draws system randomness, in hex;
  \<open>sjcl_addEntropy L data bits\<close> feeds the pool; \<open>sjcl_randomWords L\<close> draws the hex
  form of eight random words; \<open>HDNode_fromSeedHex L seed\<close> is the pair of the base58
  forms of the neutered and of the full extended key; \<open>bitgo_encrypt L password input\<close>
  and \<open>sjcl_decrypt L password ciphertext\<close> are the cipher; \<open>secrets_share L seed n m\<close>
  and \<open>secrets_combine L shares\<close> the secret sharing.
\<close>

subsection \<open>Entropy\<close>

definition addEntropy :: "'r lib \<Rightarrow> nat \<Rightarrow> 'r \<Rightarrow> 'r" where
  "addEntropy L nBytes rng =
     (let (buf, rng1) = crypto_randomBytes L nBytes rng
      in sjcl_addEntropy L buf (nBytes * 8) rng1)"

definition addUserEntropy :: "'r lib \<Rightarrow> string \<Rightarrow> 'r \<Rightarrow> 'r" where
  "addUserEntropy L userString rng = sjcl_addEntropy L userString (length userString * 2) rng"

subsection \<open>Key generation\<close>

datatype key_error = SeedRejected | ShareFailed | EncryptFailed | ParamsNotNumbers

record key =
  k_seed :: string
  k_xpub :: string
  k_xprv :: string

definition genKey :: "'r lib \<Rightarrow> 'r \<Rightarrow> (key_error + key) \<times> 'r" where
  "genKey L rng =
     (let rng1 = addEntropy L 128 rng;
          (seed, rng2) = sjcl_randomWords L rng1
      in case HDNode_fromSeedHex L seed of
           None \<Rightarrow> (Inl SeedRejected, rng2)
         | Some (xpub, xprv) \<Rightarrow> (Inr \<lparr> k_seed = seed, k_xpub = xpub, k_xprv = xprv \<rparr>, rng2))"

text \<open>
  The parameters \<^verbatim>\<open>genSplitKey\<close> reads from \<^verbatim>\<open>params\<close>: the numbers \<^verbatim>\<open>m\<close> and \<^verbatim>\<open>n\<close>
  and, for a share index \<open>i\<close>, \<^verbatim>\<open>params['password' + i]\<close> (\<open>None\<close> when there is none,
  which the cipher refuses).
\<close>

record split_params =
  p_m :: int
  p_n :: int
  p_password :: "nat \<Rightarrow> string option"

record split_key =
  sk_xpub :: string
  sk_m :: int
  sk_n :: int
  sk_seedShares :: "string list"

definition encryptShares :: "'r lib \<Rightarrow> (nat \<Rightarrow> string option) \<Rightarrow> string list \<Rightarrow> string list option"
  where
  "encryptShares L password shares =
     those (map (\<lambda>(sh, shareIndex). map_option (\<lambda>pw. bitgo_encrypt L pw sh) (password shareIndex))
              (zip shares [0..<length shares]))"

definition genSplitKey :: "'r lib \<Rightarrow> split_params \<Rightarrow> 'r \<Rightarrow> (key_error + split_key) \<times> 'r" where
  "genSplitKey L params rng =
     (case genKey L rng of
        (Inl e, rng') \<Rightarrow> (Inl e, rng')
      | (Inr key, rng') \<Rightarrow>
          (case (if p_n params = 1 then Some [k_seed key]
                 else secrets_share L (k_seed key) (p_n params) (p_m params)) of
             None \<Rightarrow> (Inl ShareFailed, rng')
           | Some shares \<Rightarrow>
               (case encryptShares L (p_password params) shares of
                  None \<Rightarrow> (Inl EncryptFailed, rng')
                | Some encryptedShares \<Rightarrow>
                    (Inr \<lparr> sk_xpub = k_xpub key, sk_m = p_m params, sk_n = p_n params,
                           sk_seedShares = encryptedShares \<rparr>, rng'))))"

subsection \<open>Reconstruction of a seed (handleRecoverKeys)\<close>

text \<open>
  \<^verbatim>\<open>passwords\<close> is the list of bindings \<^verbatim>\<open>{shareIndex, password}\<close>. Decrypting a key's
  shares under the bindings fails when one decryption throws (also on a share index the
  key does not have).
\<close>

definition decryptShares :: "'r lib \<Rightarrow> (nat \<times> string) list \<Rightarrow> string list \<Rightarrow> string list option"
  where
  "decryptShares L passwords seedShares =
     those (map (\<lambda>(shareIndex, password).
                   if shareIndex < length seedShares
                   then sjcl_decrypt L password (seedShares ! shareIndex) else None)
              passwords)"

definition recombine :: "'r lib \<Rightarrow> string list \<Rightarrow> string option" where
  "recombine L shares =
     (if length shares = 1 then Some (shares ! 0) else secrets_combine L shares)"

subsection \<open>UserInput\<close>

text \<open>
  A \<^verbatim>\<open>UserInput\<close> object holds the command-line arguments and what the user has typed
  since, by field name; \<^verbatim>\<open>'password' + i\<close> is \<open>F_password i\<close>. A field holds a string
  or a number. The lines the user will type are a list; a prompt takes the next line, and
  on an exhausted list it never returns (\<open>None\<close>).
\<close>

datatype field =
    F_n | F_m | F_nkeys | F_prefix | F_entropy | F_file | F_keys
  | F_password nat | F_other string

datatype jsval = JStr string | JNum int

type_synonym user_input = "field \<Rightarrow> jsval option"

definition truthy :: "jsval option \<Rightarrow> bool" where
  "truthy v = (case v of None \<Rightarrow> False | Some (JStr s) \<Rightarrow> s \<noteq> [] | Some (JNum n) \<Rightarrow> n \<noteq> 0)"

definition is_space :: "char \<Rightarrow> bool" where
  "is_space c = (c \<in> set [CHR '' '', CHR 0x09, CHR 0x0A, CHR 0x0B, CHR 0x0C, CHR 0x0D])"

definition trim :: "string \<Rightarrow> string" where
  "trim s = rev (dropWhile is_space (rev (dropWhile is_space s)))"

fun prompt :: "bool \<Rightarrow> string list \<Rightarrow> (string \<times> string list) option" where
  "prompt required [] = None"
| "prompt required (l # ls) =
     (let line = trim l
      in if line \<noteq> [] \<or> \<not> required then Some (line, ls) else prompt required ls)"

fun promptPassword :: "bool \<Rightarrow> string list \<Rightarrow> (string \<times> string list) option" where
  "promptPassword allowBlank [] = None"
| "promptPassword allowBlank (l # ls) =
     (if l \<noteq> [] \<or> allowBlank then Some (l, ls) else promptPassword allowBlank ls)"

definition getVariable ::
  "field \<Rightarrow> bool \<Rightarrow> jsval option \<Rightarrow> user_input \<times> string list
     \<Rightarrow> (user_input \<times> string list) option" where
  "getVariable name required defaultValue st =
     (case st of (self, tape) \<Rightarrow>
        if truthy (self name) then Some (self, tape)
        else
          (case (if name = F_other ''password'' \<or> name = F_other ''passcode''
                 then promptPassword False tape else prompt required tape) of
             None \<Rightarrow> None
           | Some (v, tape') \<Rightarrow>
               Some (self(name := (if v = [] \<and> truthy defaultValue then defaultValue
                                   else Some (JStr v))), tape')))"

lemma prompt_shorter: "prompt required tape = Some (v, tape') \<Longrightarrow> length tape' < length tape"
  by (induction tape) (auto simp: Let_def split: if_splits)

lemma promptPassword_shorter:
  "promptPassword allowBlank tape = Some (v, tape') \<Longrightarrow> length tape' < length tape"
  by (induction tape) (auto split: if_splits)

function UserInput_getPassword ::
  "field \<Rightarrow> bool \<Rightarrow> user_input \<times> string list \<Rightarrow> (user_input \<times> string list) option" where
  "UserInput_getPassword name confirm (self, tape) =
     (if truthy (self name) then Some (self, tape)
      else
        (case promptPassword False tape of
           None \<Rightarrow> None
         | Some (password, tape1) \<Rightarrow>
             if confirm then
               (case promptPassword True tape1 of
                  None \<Rightarrow> None
                | Some (confirmation, tape2) \<Rightarrow>
                    if confirmation \<noteq> password
                    then UserInput_getPassword name confirm (self, tape2)
                    else Some (self(name := Some (JStr password)), tape2))
             else Some (self(name := Some (JStr password)), tape1)))"
  by pat_completeness auto
termination
proof (relation "measure (\<lambda>(name, confirm, self, tape). length tape)")
  show "wf (measure (\<lambda>(name, confirm, self, tape). length tape))" by simp
next
  fix name :: field and confirm :: bool and self :: user_input and tape x2 x y x2a xa ya
  assume "promptPassword False tape = Some x2" "(x, y) = x2"
    "promptPassword True y = Some x2a" "(xa, ya) = x2a"
  then have "length y < length tape" "length ya < length y"
    by (auto dest: promptPassword_shorter)
  then show "((name, confirm, self, ya), (name, confirm, self, tape))
             \<in> measure (\<lambda>(name, confirm, self, tape). length tape)"
    by simp
qed

subsection \<open>Numbers read from strings\<close>

definition is_digit :: "char \<Rightarrow> bool" where
  "is_digit c = (48 \<le> (of_char c :: nat) \<and> (of_char c :: nat) \<le> 57)"

definition digits_value :: "string \<Rightarrow> nat" where
  "digits_value ds = foldl (\<lambda>a c. 10 * a + ((of_char c :: nat) - 48)) 0 ds"

text \<open>
  \<^verbatim>\<open>parseInt(s, 10)\<close>: leading white space, an optional sign, then the longest run of
  digits; \<open>None\<close> is \<^verbatim>\<open>NaN\<close>.
\<close>

definition parseInt10 :: "string \<Rightarrow> int option" where
  "parseInt10 s =
     (let s1 = dropWhile is_space s;
          neg = (s1 \<noteq> [] \<and> hd s1 = CHR ''-'');
          s2 = (if s1 \<noteq> [] \<and> (hd s1 = CHR ''-'' \<or> hd s1 = CHR ''+'') then tl s1 else s1);
          ds = takeWhile is_digit s2
      in if ds = [] then None
         else Some (if neg then - int (digits_value ds) else int (digits_value ds)))"

definition parseInt :: "jsval option \<Rightarrow> int option" where
  "parseInt v = (case v of None \<Rightarrow> None | Some (JStr s) \<Rightarrow> parseInt10 s | Some (JNum n) \<Rightarrow> Some n)"

text \<open>
  \<^verbatim>\<open>value != self[name]\<close> compares the parsed integer with the field as numbers. For a
  string field that is the number the string denotes, \<open>toNumber s\<close>, a parameter of the
  model (\<open>None\<close> for \<^verbatim>\<open>NaN\<close>).
\<close>

definition loose_neq :: "(string \<Rightarrow> rat option) \<Rightarrow> int option \<Rightarrow> jsval option \<Rightarrow> bool" where
  "loose_neq toNumber v x =
     (case v of
        None \<Rightarrow> True
      | Some a \<Rightarrow>
          (case x of
             None \<Rightarrow> True
           | Some (JStr s) \<Rightarrow> toNumber s \<noteq> Some (of_int a)
           | Some (JNum b) \<Rightarrow> a \<noteq> b))"

datatype input_error = IntegerRequired | AtLeast int | AtMost int

text \<open>
  The checks of \<^verbatim>\<open>getIntVariable\<close>. The upper bound is \<open>None\<close> when it is not a number,
  and then no value exceeds it.
\<close>

definition checkInt ::
  "(string \<Rightarrow> rat option) \<Rightarrow> jsval option \<Rightarrow> int \<Rightarrow> int option \<Rightarrow> input_error + int" where
  "checkInt toNumber x mn mx =
     (let v = parseInt x
      in if loose_neq toNumber v x then Inl IntegerRequired
         else
           (case v of
              None \<Rightarrow> Inl IntegerRequired
            | Some a \<Rightarrow>
                if a < mn then Inl (AtLeast mn)
                else if (case mx of None \<Rightarrow> False | Some b \<Rightarrow> a > b) then Inl (AtMost (the mx))
                else Inr a))"

lemma getVariable_tape:
  assumes "getVariable name required dv (self, tape) = Some (self', tape')"
  shows "(truthy (self name) \<and> self' = self \<and> tape' = tape)
         \<or> (\<not> truthy (self name) \<and> length tape' < length tape)"
  using assms
  by (auto simp: getVariable_def split: if_splits option.splits
        dest: prompt_shorter promptPassword_shorter)

function getIntVariable ::
  "(string \<Rightarrow> rat option) \<Rightarrow> field \<Rightarrow> bool \<Rightarrow> int \<Rightarrow> int option
     \<Rightarrow> user_input \<times> string list \<Rightarrow> (user_input \<times> string list) option" where
  "getIntVariable toNumber name required mn mx st =
     (case getVariable name required None st of
        None \<Rightarrow> None
      | Some (self, tape) \<Rightarrow>
          (case checkInt toNumber (self name) mn mx of
             Inr v \<Rightarrow> Some (self(name := Some (JNum v)), tape)
           | Inl err \<Rightarrow>
               if required
               then getIntVariable toNumber name required mn mx (self(name := None), tape)
               else Some (self(name := None), tape)))"
  by pat_completeness auto
termination
proof (relation "measure (\<lambda>(toNumber, name, required, mn, mx, self, tape).
                    2 * length tape + (if truthy (self name) then 1 else 0))")
  show "wf (measure (\<lambda>(toNumber, name, required, mn, mx, self, tape).
                    2 * length tape + (if truthy (self name) then 1 else 0)))" by simp
next
  fix toNumber :: "string \<Rightarrow> rat option" and name :: field and required :: bool
    and mn :: int and mx :: "int option" and st :: "user_input \<times> string list"
    and x2 :: "user_input \<times> string list" and x :: user_input and y :: "string list"
    and a :: input_error
  assume g: "getVariable name required None st = Some x2" and x2: "(x, y) = x2"
  obtain self tape where st: "st = (self, tape)" by (cases st)
  from g x2 st have "getVariable name required None (self, tape) = Some (x, y)" by simp
  from getVariable_tape[OF this]
  show "((toNumber, name, required, mn, mx, x(name := None), y),
         (toNumber, name, required, mn, mx, st))
        \<in> measure (\<lambda>(toNumber, name, required, mn, mx, self, tape).
                    2 * length tape + (if truthy (self name) then 1 else 0))"
    by (auto simp: st truthy_def)
qed

subsection \<open>handleSplitKeys\<close>

definition num :: "jsval option \<Rightarrow> int option" where
  "num v = (case v of Some (JNum n) \<Rightarrow> Some n | _ \<Rightarrow> None)"

text \<open>
  The local \<^verbatim>\<open>getPassword(i, n)\<close> of \<^verbatim>\<open>handleSplitKeys\<close> asks for the passwords
  \<open>i, i + 1, \<dots>\<close> with confirmation and stops when \<^verbatim>\<open>i === n\<close>. Past \<open>n\<close> it would ask
  without end.
\<close>

function splitKeys_getPassword ::
  "nat \<Rightarrow> int \<Rightarrow> user_input \<times> string list \<Rightarrow> (user_input \<times> string list) option" where
  "splitKeys_getPassword i n st =
     (if int i = n then Some st
      else if n < int i then None
      else
        (case UserInput_getPassword (F_password i) True st of
           None \<Rightarrow> None
         | Some st' \<Rightarrow> splitKeys_getPassword (i + 1) n st'))"
  by pat_completeness auto
termination
  by (relation "measure (\<lambda>(i, n, st). nat (n - int i))") auto

text \<open>
  The steps of \<^verbatim>\<open>handleSplitKeys\<close> before the generation: \<^verbatim>\<open>n\<close>, \<^verbatim>\<open>m\<close>, \<^verbatim>\<open>nkeys\<close>,
  \<^verbatim>\<open>prefix\<close>, \<^verbatim>\<open>entropy\<close> and the passwords. \<^verbatim>\<open>nkeys\<close> is read with \<^verbatim>\<open>getVariable\<close>,
  whose fourth argument is a default value: \<^verbatim>\<open>getVariable('nkeys', \<dots>, true, 1, 100000)\<close>.
\<close>

definition splitKeys_input ::
  "(string \<Rightarrow> rat option) \<Rightarrow> 'r lib \<Rightarrow> user_input \<Rightarrow> string list \<Rightarrow> 'r
     \<Rightarrow> (user_input \<times> string list \<times> 'r) option" where
  "splitKeys_input toNumber L args tape rng =
     (case getIntVariable toNumber F_n True 1 (Some 10) (args, tape) of
        None \<Rightarrow> None
      | Some st1 \<Rightarrow>
          (let mMin = (if fst st1 F_n = Some (JNum 1) then 1 else 2)
           in case getIntVariable toNumber F_m True mMin (num (fst st1 F_n)) st1 of
                None \<Rightarrow> None
              | Some st2 \<Rightarrow>
                  (case getVariable F_nkeys True (Some (JNum 1)) st2 of
                     None \<Rightarrow> None
                   | Some st3 \<Rightarrow>
                       (case getVariable F_prefix False (Some (JStr ''keys'')) st3 of
                          None \<Rightarrow> None
                        | Some st4 \<Rightarrow>
                            (case getVariable F_entropy False None st4 of
                               None \<Rightarrow> None
                             | Some (input, tape5) \<Rightarrow>
                                 (let rng' =
                                    (case input F_entropy of
                                       Some (JStr e) \<Rightarrow>
                                         if e \<noteq> [] then addUserEntropy L e rng else rng
                                     | _ \<Rightarrow> rng)
                                  in case num (input F_n) of
                                       None \<Rightarrow> None
                                     | Some n \<Rightarrow>
                                         (case splitKeys_getPassword 0 n (input, tape5) of
                                            None \<Rightarrow> None
                                          | Some (input', tape6) \<Rightarrow>
                                              Some (input', tape6, rng'))))))))"

text \<open>
  \<^verbatim>\<open>_.range(0, nkeys)\<close> (lodash 3, the version whose \<^verbatim>\<open>_.pluck\<close> and \<^verbatim>\<open>_.indexBy\<close> the
  file calls) is \<open>0, 1, \<dots>\<close> up to the length \<open>max(ceil(+nkeys || 0), 0)\<close>.
\<close>

definition range_length :: "(string \<Rightarrow> rat option) \<Rightarrow> jsval option \<Rightarrow> nat" where
  "range_length toNumber v =
     (case v of
        None \<Rightarrow> 0
      | Some (JNum e) \<Rightarrow> nat e
      | Some (JStr s) \<Rightarrow> (case toNumber s of None \<Rightarrow> 0 | Some q \<Rightarrow> nat \<lceil>q\<rceil>))"

text \<open>
  The number a field denotes (\<^verbatim>\<open>+nkeys\<close>), \<open>None\<close> for \<^verbatim>\<open>NaN\<close>: it says what
  \<^verbatim>\<open>nkeys\<close> is when the properties below count the records of a batch.
\<close>

definition number_of :: "(string \<Rightarrow> rat option) \<Rightarrow> jsval option \<Rightarrow> rat option" where
  "number_of toNumber v =
     (case v of None \<Rightarrow> None | Some (JNum e) \<Rightarrow> Some (of_int e) | Some (JStr s) \<Rightarrow> toNumber s)"

record key_record =
  kr_index :: int
  kr_xpub :: string
  kr_m :: int
  kr_n :: int
  kr_seedShares :: "string list"

text \<open>
  What \<^verbatim>\<open>genSplitKey(input)\<close> reads from the \<^verbatim>\<open>UserInput\<close>. After the two
  \<^verbatim>\<open>getIntVariable\<close> steps \<^verbatim>\<open>n\<close> and \<^verbatim>\<open>m\<close> hold numbers; \<open>None\<close> stands for any other
  content, which the secret sharing refuses.
\<close>

definition params_of :: "user_input \<Rightarrow> split_params option" where
  "params_of input =
     (case (num (input F_m), num (input F_n)) of
        (Some m, Some n) \<Rightarrow>
          Some \<lparr> p_m = m, p_n = n,
                 p_password = (\<lambda>i. case input (F_password i) of
                                      Some (JStr pw) \<Rightarrow> Some pw | _ \<Rightarrow> None) \<rparr>
      | _ \<Rightarrow> None)"

fun generate :: "'r lib \<Rightarrow> split_params \<Rightarrow> nat list \<Rightarrow> 'r \<Rightarrow> (key_error + key_record list) \<times> 'r"
  where
  "generate L params [] rng = (Inr [], rng)"
| "generate L params (index # rest) rng =
     (case genSplitKey L params rng of
        (Inl e, rng1) \<Rightarrow> (Inl e, rng1)
      | (Inr key, rng1) \<Rightarrow>
          (case generate L params rest rng1 of
             (Inl e, rng2) \<Rightarrow> (Inl e, rng2)
           | (Inr keys, rng2) \<Rightarrow>
               (Inr (\<lparr> kr_index = int index, kr_xpub = sk_xpub key, kr_m = sk_m key,
                       kr_n = sk_n key, kr_seedShares = sk_seedShares key \<rparr> # keys), rng2)))"

fun show_nat :: "nat \<Rightarrow> string" where
  "show_nat n = (if n < 10 then [char_of (48 + n)]
                 else show_nat (n div 10) @ [char_of (48 + n mod 10)])"

declare show_nat.simps [simp del]

definition show_int :: "int \<Rightarrow> string" where
  "show_int i = (if i < 0 then CHR ''-'' # show_nat (nat (- i)) else show_nat (nat i))"

definition js_string :: "jsval option \<Rightarrow> string" where
  "js_string v = (case v of None \<Rightarrow> ''undefined'' | Some (JStr s) \<Rightarrow> s | Some (JNum n) \<Rightarrow> show_int n)"

text \<open>The two files \<^verbatim>\<open>handleSplitKeys\<close> writes, each with its name.\<close>

record split_output =
  out_json :: "string \<times> key_record list"
  out_csv :: "string \<times> string list"

definition splitKeys_generate ::
  "(string \<Rightarrow> rat option) \<Rightarrow> 'r lib \<Rightarrow> user_input \<Rightarrow> 'r \<Rightarrow> (key_error + split_output) \<times> 'r"
  where
  "splitKeys_generate toNumber L input rng =
     (case params_of input of
        None \<Rightarrow> (Inl ParamsNotNumbers, rng)
      | Some params \<Rightarrow>
          (case generate L params [0..<range_length toNumber (input F_nkeys)] rng of
             (Inl e, rng') \<Rightarrow> (Inl e, rng')
           | (Inr keys, rng') \<Rightarrow>
               (Inr \<lparr> out_json = (js_string (input F_prefix) @ ''.json'', keys),
                      out_csv = (js_string (input F_prefix) @ ''.xpub.csv'',
                                 map (\<lambda>key. show_int (kr_index key) @ '','' @ kr_xpub key) keys) \<rparr>,
                rng')))"

definition handleSplitKeys ::
  "(string \<Rightarrow> rat option) \<Rightarrow> 'r lib \<Rightarrow> user_input \<Rightarrow> string list \<Rightarrow> 'r
     \<Rightarrow> (key_error + split_output) option" where
  "handleSplitKeys toNumber L args tape rng =
     (case splitKeys_input toNumber L args tape rng of
        None \<Rightarrow> None
      | Some (input, tape', rng') \<Rightarrow> Some (fst (splitKeys_generate toNumber L input rng')))"

subsection \<open>handleRecoverKeys\<close>

datatype recover_error =
    ReadFailed | KeysNotAString | NoIndices | IndexOutOfRange nat | NoFirstKey
  | DecryptThrew | CombineThrew | FromSeedThrew | XpubsDontMatch int

text \<open>
  The \<^verbatim>\<open>shares.forEach\<close> of the local \<^verbatim>\<open>getPassword\<close>: every share is tried with the
  password; one that decrypts and whose index has no binding yet gets one, and \<open>found\<close>
  is set.
\<close>

fun try_shares ::
  "'r lib \<Rightarrow> string \<Rightarrow> string list \<Rightarrow> nat \<Rightarrow> (nat \<times> string) list \<times> bool
     \<Rightarrow> (nat \<times> string) list \<times> bool" where
  "try_shares L password [] shareIndex acc = acc"
| "try_shares L password (sh # rest) shareIndex (passwords, found) =
     try_shares L password rest (Suc shareIndex)
       (case sjcl_decrypt L password sh of
          None \<Rightarrow> (passwords, found)
        | Some _ \<Rightarrow>
            if \<not> list_ex (\<lambda>p. fst p = shareIndex) passwords
            then (passwords @ [(shareIndex, password)], True)
            else (passwords, found))"

lemma UserInput_getPassword_tape:
  assumes "UserInput_getPassword name False (self, tape) = Some (self', tape')"
  shows "(truthy (self name) \<and> self' = self \<and> tape' = tape)
         \<or> (\<not> truthy (self name) \<and> length tape' < length tape)"
  using assms
  by (auto split: if_splits option.splits dest: promptPassword_shorter)

text \<open>
  The local \<^verbatim>\<open>getPassword(i, n, shares)\<close> of \<^verbatim>\<open>handleRecoverKeys\<close>, with the list
  \<^verbatim>\<open>passwords\<close> it appends to. A password that binds nothing is deleted and slot \<open>i\<close>
  is asked again.
\<close>

function recoverKeys_getPassword ::
  "'r lib \<Rightarrow> nat \<Rightarrow> int \<Rightarrow> string list \<Rightarrow> (nat \<times> string) list \<Rightarrow> user_input \<times> string list
     \<Rightarrow> ((nat \<times> string) list \<times> user_input \<times> string list) option" where
  "recoverKeys_getPassword L i n shares passwords st =
     (if int i = n then Some (passwords, st)
      else if n < int i then None
      else
        (case UserInput_getPassword (F_password i) False st of
           None \<Rightarrow> None
         | Some (input, tape) \<Rightarrow>
             (case (case input (F_password i) of
                      Some (JStr password) \<Rightarrow> try_shares L password shares 0 (passwords, False)
                    | _ \<Rightarrow> (passwords, False)) of
                (passwords', found) \<Rightarrow>
                  if found
                  then recoverKeys_getPassword L (i + 1) n shares passwords' (input, tape)
                  else recoverKeys_getPassword L i n shares passwords'
                         (input(F_password i := None), tape))))"
  by pat_completeness auto
termination
  apply (relation "measures
    [\<lambda>(L, i, n, shares, passwords, self, tape). length tape,
     \<lambda>(L, i, n, shares, passwords, self, tape). nat (n - int i),
     \<lambda>(L, i, n, shares, passwords, self, tape). if truthy (self (F_password i)) then 1 else 0]")
    apply simp
   apply (auto simp: truthy_def dest!: UserInput_getPassword_tape)
  done





fun split_on :: "char \<Rightarrow> string \<Rightarrow> string list" where
  "split_on c [] = [[]]"
| "split_on c (x # xs) =
     (if x = c then [] # split_on c xs
      else (case split_on c xs of [] \<Rightarrow> [[x]] | y # ys \<Rightarrow> (x # y) # ys))"

definition uniq :: "'a list \<Rightarrow> 'a list" where
  "uniq xs = rev (remdups (rev xs))"

definition parse_indices :: "string \<Rightarrow> int list" where
  "parse_indices keys = sort (uniq (List.map_filter parseInt10 (split_on (CHR '','') keys)))"

text \<open>
  \<^verbatim>\<open>keys.filter(function(key, index) { return indices.indexOf(index) !== -1; })\<close>: the
  keys whose position in the file is among the indices.
\<close>

definition select_by_position :: "key_record list \<Rightarrow> int list \<Rightarrow> key_record list" where
  "select_by_position keys indices =
     map fst (filter (\<lambda>(key, index). int index \<in> set indices) (zip keys [0..<length keys]))"

text \<open>
  The selection as a reader of the batch file would state it: the keys whose
  \<^verbatim>\<open>index\<close> field is among the indices. It is not what the code computes; the two are
  compared below.
\<close>

definition select_by_index_field :: "key_record list \<Rightarrow> int list \<Rightarrow> key_record list" where
  "select_by_index_field keys indices = filter (\<lambda>key. kr_index key \<in> set indices) keys"

text \<open>
  The step that reads the file and the list of indices. \<open>fs name\<close> is the content of the
  file \<open>name\<close> as parsed, \<open>None\<close> when reading or parsing throws. The keys are selected by
  their position in the file.
\<close>

definition recoverKeys_select ::
  "(string \<Rightarrow> key_record list option) \<Rightarrow> user_input \<Rightarrow> recover_error + key_record list" where
  "recoverKeys_select fs input =
     (case fs (js_string (input F_file)) of
        None \<Rightarrow> Inl ReadFailed
      | Some keys \<Rightarrow>
          (case input F_keys of
             Some (JStr ks) \<Rightarrow>
               (let indices = parse_indices ks
                in if indices = [] then Inl NoIndices
                   else if hd indices < 0 \<or> last indices \<ge> int (length keys)
                   then Inl (IndexOutOfRange (length keys))
                   else Inr (select_by_position keys indices))
           | _ \<Rightarrow> Inl KeysNotAString))"

record recovered_key =
  rk_index :: int
  rk_xpub :: string
  rk_xprv :: "string option"

definition recoverKey ::
  "'r lib \<Rightarrow> bool \<Rightarrow> (nat \<times> string) list \<Rightarrow> key_record \<Rightarrow> recover_error + recovered_key" where
  "recoverKey L verifyonly passwords key =
     (case decryptShares L passwords (kr_seedShares key) of
        None \<Rightarrow> Inl DecryptThrew
      | Some shares \<Rightarrow>
          (case recombine L shares of
             None \<Rightarrow> Inl CombineThrew
           | Some seed \<Rightarrow>
               (case HDNode_fromSeedHex L seed of
                  None \<Rightarrow> Inl FromSeedThrew
                | Some (xpub, xprv) \<Rightarrow>
                    if \<not> verifyonly \<and> xpub \<noteq> kr_xpub key
                    then Inl (XpubsDontMatch (kr_index key))
                    else Inr \<lparr> rk_index = kr_index key, rk_xpub = xpub,
                               rk_xprv = (if verifyonly then None else Some xprv) \<rparr>)))"

fun recoverKeys_map ::
  "'r lib \<Rightarrow> bool \<Rightarrow> (nat \<times> string) list \<Rightarrow> key_record list
     \<Rightarrow> recover_error + recovered_key list" where
  "recoverKeys_map L verifyonly passwords [] = Inr []"
| "recoverKeys_map L verifyonly passwords (key # keys) =
     (case recoverKey L verifyonly passwords key of
        Inl e \<Rightarrow> Inl e
      | Inr r \<Rightarrow>
          (case recoverKeys_map L verifyonly passwords keys of
             Inl e \<Rightarrow> Inl e
           | Inr rs \<Rightarrow> Inr (r # rs)))"

text \<open>
  The steps after the selection: the passwords, counted and tried on the first key, then
  the recovery of every selected key.
\<close>

definition recoverKeys_recover ::
  "'r lib \<Rightarrow> bool \<Rightarrow> key_record list \<Rightarrow> user_input \<times> string list
     \<Rightarrow> (recover_error + recovered_key list) option" where
  "recoverKeys_recover L verifyonly keysToRecover st =
     (case keysToRecover of
        [] \<Rightarrow> Some (Inl NoFirstKey)
      | firstKey # _ \<Rightarrow>
          (case recoverKeys_getPassword L 0 (kr_m firstKey) (kr_seedShares firstKey) [] st of
             None \<Rightarrow> None
           | Some (passwords, st') \<Rightarrow>
               Some (recoverKeys_map L verifyonly passwords keysToRecover)))"

definition handleRecoverKeys ::
  "'r lib \<Rightarrow> bool \<Rightarrow> (string \<Rightarrow> key_record list option) \<Rightarrow> user_input \<Rightarrow> string list
     \<Rightarrow> (recover_error + recovered_key list) option" where
  "handleRecoverKeys L verifyonly fs args tape =
     (case getVariable F_file False None (args, tape) of
        None \<Rightarrow> None
      | Some st1 \<Rightarrow>
          (case getVariable F_keys False None st1 of
             None \<Rightarrow> None
           | Some (input, tape2) \<Rightarrow>
               (case recoverKeys_select fs input of
                  Inl e \<Rightarrow> Some (Inl e)
                | Inr keysToRecover \<Rightarrow>
                    recoverKeys_recover L verifyonly keysToRecover (input, tape2))))"

subsection \<open>The records of generated keys\<close>

text \<open>
  \<open>record_of_key L params r key\<close>: the record \<open>r\<close> of a batch file holds what
  \<^verbatim>\<open>genSplitKey\<close> returned, under the parameters \<open>params\<close>, in a call that generated
  \<open>key\<close>. The index of the record is free.
\<close>

definition record_of_key :: "'r lib \<Rightarrow> split_params \<Rightarrow> key_record \<Rightarrow> key \<Rightarrow> bool" where
  "record_of_key L params r key \<longleftrightarrow>
     (\<exists>rng rng1 rng' sk.
        genKey L rng = (Inr key, rng1) \<and> genSplitKey L params rng = (Inr sk, rng')
        \<and> kr_xpub r = sk_xpub sk \<and> kr_m r = sk_m sk \<and> kr_n r = sk_n sk
        \<and> kr_seedShares r = sk_seedShares sk)"

subsection \<open>The fee check of the litecoin recovery command\<close>

text \<open>
  \<^verbatim>\<open>handleRecoverLitecoin\<close> (src/bgcl.js, the earlier revision of the file) is the one
  place of the repository that compares a recovery fee with absolute bounds:
  \<^verbatim>\<open>fee > 0.1 * 1e8\<close> is too high, \<^verbatim>\<open>fee < 0.0001 * 1e8\<close> is too low.
\<close>
datatype fee_error = InsufficientInput | FeeTooHigh | FeeTooLow

definition ltc_fee_check :: "int \<Rightarrow> int \<Rightarrow> fee_error + int" where
  "ltc_fee_check totalInputAmount totalOutputAmount =
     (let fee = totalInputAmount - totalOutputAmount
      in if fee < 0 then Inl InsufficientInput
         else if fee > 10000000 then Inl FeeTooHigh
         else if fee < 10000 then Inl FeeTooLow
         else Inr fee)"

subsection \<open>Example values\<close>

definition ex_address :: address_rec where
  "ex_address = \<lparr> a_address = ''3MJybW'', a_chain = 0, a_index = 1,
     a_redeemScript = Some ''5221'', a_witnessScript = None \<rparr>"

definition ex_tool :: "coin_type \<Rightarrow> coin_type \<Rightarrow> tool" where
  "ex_tool src rcv = \<lparr> sourceCoin = src, recoveryCoin = rcv, addresses_dest = [ex_address],
     dest_isV1 = False, dest_id = ''dest'', source_id = ''src'', recoveryTx_ins = [],
     recoveryTx_outs = [], this_unspents = None, this_txInfo = None \<rparr>"

definition ex_unspent :: "string \<Rightarrow> string \<Rightarrow> int \<Rightarrow> unspent" where
  "ex_unspent i a v = \<lparr> u_id = i, u_address = a, u_value = v, u_tx = i, u_nOut = 0,
     u_witnessScript = None \<rparr>"

definition accept_all :: "'a \<Rightarrow> 'b \<Rightarrow> bool" where
  "accept_all x y = True"

text \<open>
  \<open>k\<close> unspents of 100000 satoshi each on the known address, outputs 0 of the
  transactions 0, 1, and so on.
\<close>

definition ex_unspents :: "nat \<Rightarrow> unspent list" where
  "ex_unspents k = map (\<lambda>i. ex_unspent (show_nat i @ '':0'') ''3MJybW'' 100000) [0..<k]"



subsection \<open>What is assumed of the libraries\<close>

text \<open>
  The cipher decrypts what it encrypted under the same password (\<open>cipher_ok\<close>) and
  under no other: its integrity check refuses a wrong password (\<open>cipher_auth\<close>). The
  secret sharing, asked for \<open>n\<close> shares with a threshold \<open>2 \<le> m \<le> n\<close>, returns \<open>n\<close>
  shares of which any \<open>m\<close>, in any order, combine to the secret. \<open>valid_m_n\<close> is the
  range \<^verbatim>\<open>handleSplitKeys\<close> admits: \<open>n\<close> from 1 to 10, \<open>m\<close> from \<^verbatim>\<open>mMin\<close> (1 when
  \<open>n = 1\<close>, else 2) to \<open>n\<close>.
\<close>

definition cipher_ok :: "'r lib \<Rightarrow> bool" where
  "cipher_ok L \<longleftrightarrow>
     (\<forall>password input. sjcl_decrypt L password (bitgo_encrypt L password input) = Some input)"


definition sharing_ok :: "'r lib \<Rightarrow> bool" where
  "sharing_ok L \<longleftrightarrow>
     (\<forall>seed n m shares.
        secrets_share L seed n m = Some shares \<and> 2 \<le> m \<and> m \<le> n \<longrightarrow>
          length shares = nat n) \<and>
     (\<forall>seed n m shares idxs.
        secrets_share L seed n m = Some shares \<and> 2 \<le> m \<and> m \<le> n \<and>
        distinct idxs \<and> set idxs \<subseteq> {..<nat n} \<and> int (length idxs) = m \<longrightarrow>
          secrets_combine L (map ((!) shares) idxs) = Some seed)"

definition valid_m_n :: "int \<Rightarrow> int \<Rightarrow> bool" where
  "valid_m_n m n \<longleftrightarrow> 1 \<le> n \<and> n \<le> 10 \<and> (if n = 1 then 1 else 2) \<le> m \<and> m \<le> n"


subsection \<open>A small instance of the libraries\<close>

text \<open>
  An instance to run the definitions on: the pool is a counter that entropy does not
  move, the cipher writes the password before the text, a dot before each of its
  characters and a bar after the last, every share carries a tag and the secret.
\<close>

fun toy_encrypt :: "string \<Rightarrow> string \<Rightarrow> string" where
  "toy_encrypt [] input = CHR ''|'' # input"
| "toy_encrypt (c # password) input = CHR ''.'' # c # toy_encrypt password input"

fun toy_decrypt :: "string \<Rightarrow> string \<Rightarrow> string option" where
  "toy_decrypt [] (x # rest) = (if x = CHR ''|'' then Some rest else None)"
| "toy_decrypt (c # password) (x # y # rest) =
     (if x = CHR ''.'' \<and> y = c then toy_decrypt password rest else None)"
| "toy_decrypt password rest = None"

definition toy_share :: "string \<Rightarrow> int \<Rightarrow> int \<Rightarrow> string list option" where
  "toy_share secret n m =
     (if 2 \<le> m \<and> m \<le> n \<and> n \<le> 255
      then Some (map (\<lambda>i. char_of (49 + i) # secret) [0..<nat n]) else None)"

definition toy_combine :: "string list \<Rightarrow> string option" where
  "toy_combine shares = (case shares of x # y # rest \<Rightarrow> Some (tl x) | _ \<Rightarrow> None)"

definition toy :: "nat lib" where
  "toy = \<lparr> crypto_randomBytes = (\<lambda>nBytes r. (replicate (2 * nBytes) (CHR ''0''), r)),
           sjcl_addEntropy = (\<lambda>data bits r. r),
           sjcl_randomWords = (\<lambda>r. (''5eed'' @ replicate r (CHR ''0''), Suc r)),
           HDNode_fromSeedHex = (\<lambda>seed. Some (''xpub'' @ seed, ''xprv'' @ seed)),
           bitgo_encrypt = toy_encrypt,
           sjcl_decrypt = toy_decrypt,
           secrets_share = toy_share,
           secrets_combine = toy_combine \<rparr>"

text \<open>
  The number a string denotes, for strings that are an optional sign and digits (and
  the empty string, which denotes 0); it stands for \<open>toNumber\<close> in the examples.
\<close>

definition decimal_number :: "string \<Rightarrow> rat option" where
  "decimal_number s =
     (let t = trim s;
          ds = (if t \<noteq> [] \<and> (hd t = CHR ''-'' \<or> hd t = CHR ''+'') then tl t else t)
      in if t = [] then Some 0
         else if ds \<noteq> [] \<and> list_all is_digit ds
         then Some (of_int (if hd t = CHR ''-'' then - int (digits_value ds) else int (digits_value ds)))
         else None)"

text \<open>The parameters of the repository's test of \<^verbatim>\<open>genSplitKey\<close>: 2 of 3.\<close>

definition ex_pw :: "nat \<Rightarrow> string" where
  "ex_pw i = (if i = 0 then ''test0'' else if i = 1 then ''test1'' else ''test2'')"

definition ex_params :: split_params where
  "ex_params = \<lparr> p_m = 2, p_n = 3, p_password = (\<lambda>i. Some (ex_pw i)) \<rparr>"

definition ex_split_key :: split_key where
  "ex_split_key = \<lparr> sk_xpub = ''xpub5eed'', sk_m = 2, sk_n = 3,
     sk_seedShares = [''.t.e.s.t.0|15eed'', ''.t.e.s.t.1|25eed'', ''.t.e.s.t.2|35eed''] \<rparr>"

text \<open>
  A batch file of two keys, 2 of 3, as the instance above generates them under the
  passwords \<open>a\<close>, \<open>b\<close> and \<open>c\<close>, and these passwords as parameters.
\<close>

definition ex_file :: "key_record list" where
  "ex_file =
     [\<lparr> kr_index = 0, kr_xpub = ''xpub5eed'', kr_m = 2, kr_n = 3,
         kr_seedShares = [''.a|15eed'', ''.b|25eed'', ''.c|35eed''] \<rparr>,
      \<lparr> kr_index = 1, kr_xpub = ''xpub5eed0'', kr_m = 2, kr_n = 3,
         kr_seedShares = [''.a|15eed0'', ''.b|25eed0'', ''.c|35eed0''] \<rparr>]"

definition ex_fs :: "key_record list \<Rightarrow> string \<Rightarrow> key_record list option" where
  "ex_fs keys name = (if name = ''keys.json'' then Some keys else None)"



text \<open>The same file with the xpub of its second key replaced.\<close>

definition ex_file_corrupt :: "key_record list" where
  "ex_file_corrupt = [ex_file ! 0, (ex_file ! 1)\<lparr> kr_xpub := ''xpubOTHER'' \<rparr>]"

section \<open>Properties of the recovery tool\<close>


lemma buildOutputs_default_amount:
  assumes "buildOutputs addOutput addr None None t = (r, t')"
    and "this_txInfo t = Some txInfo"
  shows "\<exists>ti. this_txInfo t' = Some ti
           \<and> inputAmount ti = outputAmount ti + minerFee ti
           \<and> minerFee ti = minerFee txInfo
           \<and> inputAmount ti = inputAmount txInfo
           \<and> (outputAmount ti \<le> 0 \<longleftrightarrow> r = Inl CannotPayFees)
           \<and> (r = Inr () \<longrightarrow> 0 < outputAmount ti)"
  using assms
  by (auto simp: buildOutputs_def falsy_def js_or_def Let_def split: if_splits)



lemma buildInputs_loop_tool:
  "buildInputs_loop addInput ns us ti t = (ex, t') \<Longrightarrow>
     t' = t\<lparr> recoveryTx_ins := recoveryTx_ins t' \<rparr>"
proof (induction us arbitrary: ti t)
  case Nil
  then show ?case by simp
next
  case (Cons u us)
  show ?case
  proof (cases "find (\<lambda>address. a_address address = u_address u) (addresses_dest t)")
    case None
    with Cons.prems show ?thesis by (simp split: if_splits)
  next
    case (Some a)
    show ?thesis
    proof (cases "(truthy_str (u_witnessScript u) \<and> ns) \<or> \<not> addInput (recoveryTx_ins t) (u_id u)")
      case True
      with Cons.prems Some show ?thesis by (auto split: if_splits)
    next
      case False
      with Cons.prems Some have
        "buildInputs_loop addInput ns us
           (ti\<lparr> inputs := inputs ti @ [\<lparr> in_unspent = u, in_data = make_inputData t a u \<rparr>],
                inputAmount := inputAmount ti + u_value u \<rparr>)
           (t\<lparr> recoveryTx_ins := recoveryTx_ins t @ [u_id u] \<rparr>) = (ex, t')"
        by (auto split: if_splits)
      from Cons.IH[OF this] show ?thesis by simp
    qed
  qed
qed

lemma buildInputs_loop_completed:
  "buildInputs_loop addInput ns us ti t = (Completed ti', t') \<Longrightarrow>
     recoveryTx_ins t' = recoveryTx_ins t @ map u_id us
     \<and> map in_unspent (inputs ti') = map in_unspent (inputs ti) @ us
     \<and> inputAmount ti' = inputAmount ti + sum_list (map u_value us)
     \<and> minerFee ti' = minerFee ti \<and> outputAmount ti' = outputAmount ti
     \<and> (\<forall>u \<in> set us. \<exists>a \<in> set (addresses_dest t). a_address a = u_address u)"
proof (induction us arbitrary: ti t)
  case Nil
  then show ?case by simp
next
  case (Cons u us)
  from Cons.prems obtain a where
    a: "find (\<lambda>address. a_address address = u_address u) (addresses_dest t) = Some a"
    by (cases "find (\<lambda>address. a_address address = u_address u) (addresses_dest t)")
       (auto split: if_splits)
  from Cons.prems a have
    step: "buildInputs_loop addInput ns us
           (ti\<lparr> inputs := inputs ti @ [\<lparr> in_unspent = u, in_data = make_inputData t a u \<rparr>],
                inputAmount := inputAmount ti + u_value u \<rparr>)
           (t\<lparr> recoveryTx_ins := recoveryTx_ins t @ [u_id u] \<rparr>) = (Completed ti', t')"
    by (auto split: if_splits)
  from a have "a \<in> set (addresses_dest t) \<and> a_address a = u_address u"
    by (auto simp: find_Some_iff)
  with Cons.IH[OF step] show ?case by auto
qed


lemma buildInputs_result:
  assumes "buildInputs addInput None t = (Inr r, t1)"
  shows "sourceCoin t1 = sourceCoin t \<and> recoveryTx_outs t1 = recoveryTx_outs t
         \<and> (case r of None \<Rightarrow> this_txInfo t1 = this_txInfo t
             | Some ti \<Rightarrow> this_txInfo t1 = Some ti)"
proof -
  from assms obtain us where us: "this_unspents t = Some us"
    by (auto simp: buildInputs_def split: option.splits)
  obtain ex t0 where l: "buildInputs_loop addInput (recoveryCoin t = BTC \<and> sourceCoin t = BCH)
                  us new_txInfo t = (ex, t0)"
    by (cases "buildInputs_loop addInput (recoveryCoin t = BTC \<and> sourceCoin t = BCH)
                  us new_txInfo t") auto
  from buildInputs_loop_tool[OF l] have t0: "t0 = t\<lparr> recoveryTx_ins := recoveryTx_ins t0 \<rparr>" .
  have "sourceCoin t0 = sourceCoin t" "recoveryTx_outs t0 = recoveryTx_outs t"
    "this_txInfo t0 = this_txInfo t"
    by (subst t0, simp)+
  with assms us l show ?thesis
    by (cases ex) (auto simp: buildInputs_def Let_def)
qed

lemma setFees_result:
  assumes "setFees None t = (Inr fee, t2)"
  shows "\<exists>ti ti2. this_txInfo t = Some ti \<and> this_txInfo t2 = Some ti2
          \<and> ti2 = ti\<lparr> minerFee := fee \<rparr>
          \<and> fee = feeRates (sourceCoin t) *
                (P2SH_INPUT_SIZE * int (length (recoveryTx_ins t)) + OUTPUT_SIZE + TX_OVERHEAD_SIZE)
          \<and> recoveryTx_ins t2 = recoveryTx_ins t \<and> recoveryTx_outs t2 = recoveryTx_outs t"
  using assms by (auto simp: setFees_def Let_def split: option.splits)

lemma buildOutputs_tx:
  assumes "buildOutputs addOutput addr None None t = (Inr (), t')"
  shows "recoveryTx_ins t' = recoveryTx_ins t
         \<and> (\<exists>ti. this_txInfo t' = Some ti
                \<and> recoveryTx_outs t' = recoveryTx_outs t @ [(addr, outputAmount ti)])"
  using assms
  by (auto simp: buildOutputs_def falsy_def js_or_def Let_def split: if_splits option.splits)

lemma buildTransaction_stages:
  assumes "buildTransaction addInput addOutput found addr t = (Inr tx, t')"
  shows "\<exists>r1 t1 fee t2.
           buildInputs addInput None (t\<lparr> this_unspents := Some found \<rparr>) = (Inr r1, t1)
         \<and> setFees None t1 = (Inr fee, t2)
         \<and> buildOutputs addOutput addr None None t2 = (Inr (), t')
         \<and> tx = (recoveryTx_ins t', recoveryTx_outs t')"
  using assms
  by (auto simp: buildTransaction_def Let_def split: prod.splits sum.splits)

text \<open>
  Claim C3. Whenever \<^verbatim>\<open>buildTransaction\<close> (buildInputs, then setFees, then buildOutputs
  with no explicit output amount) returns a transaction, the recorded \<^verbatim>\<open>txInfo\<close> satisfies
  \<open>inputAmount = outputAmount + minerFee\<close> and \<open>outputAmount > 0\<close>; with an output amount
  that is not positive the construction ends in an error instead
  (\<open>buildOutputs_default_amount\<close> gives the same equation at the abort).
\<close>

theorem buildTransaction_conservation:
  assumes "buildTransaction addInput addOutput found addr t = (Inr tx, t')"
  shows "\<exists>ti. this_txInfo t' = Some ti
           \<and> inputAmount ti = outputAmount ti + minerFee ti
           \<and> 0 < outputAmount ti"
proof -
  from buildTransaction_stages[OF assms] obtain r1 t1 fee t2 where
    s: "setFees None t1 = (Inr fee, t2)" and
    b: "buildOutputs addOutput addr None None t2 = (Inr (), t')"
    by blast
  from setFees_result[OF s] obtain ti2 where "this_txInfo t2 = Some ti2" by blast
  from buildOutputs_default_amount[OF b this] show ?thesis by auto
qed

text \<open>
  Claim C8. For every built recovery transaction the recorded miner fee is the fee rate of
  the source chain times the estimated size, 295 bytes for each input of the transaction
  plus 34 bytes for the single output plus 10 bytes of overhead, with the rates 20 for
  bch and tbch and 80 for btc and tbtc.
\<close>

theorem setFees_minerFee:
  assumes "buildTransaction addInput addOutput found addr t = (Inr tx, t')"
  shows "(\<exists>ti. this_txInfo t' = Some ti
           \<and> minerFee ti = feeRates (sourceCoin t) *
               (P2SH_INPUT_SIZE * int (length (fst tx)) + OUTPUT_SIZE + TX_OVERHEAD_SIZE))
         \<and> P2SH_INPUT_SIZE = 295 \<and> OUTPUT_SIZE = 34 \<and> TX_OVERHEAD_SIZE = 10
         \<and> feeRates BCH = 20 \<and> feeRates TBCH = 20 \<and> feeRates BTC = 80 \<and> feeRates TBTC = 80"
proof -
  from buildTransaction_stages[OF assms] obtain r1 t1 fee t2 where
    i: "buildInputs addInput None (t\<lparr> this_unspents := Some found \<rparr>) = (Inr r1, t1)" and
    s: "setFees None t1 = (Inr fee, t2)" and
    b: "buildOutputs addOutput addr None None t2 = (Inr (), t')" and
    tx: "tx = (recoveryTx_ins t', recoveryTx_outs t')"
    by blast
  from buildInputs_result[OF i] have c: "sourceCoin t1 = sourceCoin t" by simp
  from setFees_result[OF s] obtain ti2 where
    ti2: "this_txInfo t2 = Some ti2" "minerFee ti2 = fee"
    and fee: "fee = feeRates (sourceCoin t1) *
                (P2SH_INPUT_SIZE * int (length (recoveryTx_ins t1)) + OUTPUT_SIZE + TX_OVERHEAD_SIZE)"
    and ins: "recoveryTx_ins t2 = recoveryTx_ins t1"
    by auto
  from buildOutputs_default_amount[OF b ti2(1)] obtain ti where
    ti: "this_txInfo t' = Some ti" "minerFee ti = minerFee ti2" by blast
  from buildOutputs_tx[OF b] have "recoveryTx_ins t' = recoveryTx_ins t2" by simp
  with ti ti2 fee ins c tx show ?thesis
    by (simp add: P2SH_INPUT_SIZE_def OUTPUT_SIZE_def TX_OVERHEAD_SIZE_def)
qed



lemmas ex_defs = buildTransaction_def buildInputs_def setFees_def buildOutputs_def Let_def
  ex_tool_def ex_unspent_def ex_address_def accept_all_def new_txInfo_def truthy_str_def
  make_inputData_def falsy_def js_or_def P2SH_INPUT_SIZE_def OUTPUT_SIZE_def
  TX_OVERHEAD_SIZE_def

text \<open>
  One unspent of 10000 satoshi on a known address, recovering bch from a btc wallet: the
  transaction is built with a fee of \<open>20 * (295 + 34 + 10) = 6780\<close>.
\<close>

lemma ex_build:
  "\<exists>t'. buildTransaction accept_all accept_all [ex_unspent ''aa:0'' ''3MJybW'' 10000] ''1Dest''
        (ex_tool BCH BTC) = (Inr ([''aa:0''], [(''1Dest'', 3220)]), t')
      \<and> map_option minerFee (this_txInfo t') = Some 6780
      \<and> map_option inputAmount (this_txInfo t') = Some 10000
      \<and> map_option outputAmount (this_txInfo t') = Some 3220"
  by (simp add: ex_defs)

theorem buildTransaction_conservation_witness:
  "fst (buildTransaction accept_all accept_all [ex_unspent ''aa:0'' ''3MJybW'' 10000] ''1Dest''
        (ex_tool BCH BTC)) = Inr ([''aa:0''], [(''1Dest'', 3220)])
   \<and> (\<exists>ti. this_txInfo (snd (buildTransaction accept_all accept_all
                [ex_unspent ''aa:0'' ''3MJybW'' 10000] ''1Dest'' (ex_tool BCH BTC))) = Some ti
           \<and> inputAmount ti = outputAmount ti + minerFee ti
           \<and> 0 < outputAmount ti)"
proof -
  from ex_build obtain t' where
    h: "buildTransaction accept_all accept_all [ex_unspent ''aa:0'' ''3MJybW'' 10000] ''1Dest''
        (ex_tool BCH BTC) = (Inr ([''aa:0''], [(''1Dest'', 3220)]), t')" by blast
  from buildTransaction_conservation[OF h] h show ?thesis by simp
qed

theorem setFees_minerFee_witness:
  "fst (buildTransaction accept_all accept_all [ex_unspent ''aa:0'' ''3MJybW'' 10000] ''1Dest''
        (ex_tool BCH BTC)) = Inr ([''aa:0''], [(''1Dest'', 3220)])
   \<and> (\<exists>ti. this_txInfo (snd (buildTransaction accept_all accept_all
                [ex_unspent ''aa:0'' ''3MJybW'' 10000] ''1Dest'' (ex_tool BCH BTC))) = Some ti
           \<and> minerFee ti = 20 * (295 * 1 + 34 + 10))"
proof -
  from ex_build obtain t' where
    h: "buildTransaction accept_all accept_all [ex_unspent ''aa:0'' ''3MJybW'' 10000] ''1Dest''
        (ex_tool BCH BTC) = (Inr ([''aa:0''], [(''1Dest'', 3220)]), t')" by blast
  from setFees_minerFee[OF h] h show ?thesis by (simp add: ex_tool_def)
qed

text \<open>
  Claim C5, as amended. The fee of a built recovery transaction is the rate of the source
  chain times \<open>295 * inputs + 44\<close> and is smaller than the input amount; that the output
  amount is positive is the only condition on the fee, which is compared with no bound.
\<close>

theorem buildTransaction_fee_only_below_inputs:
  assumes "buildTransaction addInput addOutput found addr t = (Inr tx, t')"
  shows "\<exists>ti. this_txInfo t' = Some ti
           \<and> minerFee ti = feeRates (sourceCoin t) * (295 * int (length (fst tx)) + 44)
           \<and> minerFee ti < inputAmount ti"
proof -
  from buildTransaction_stages[OF assms] obtain r1 t1 fee t2 where
    i: "buildInputs addInput None (t\<lparr> this_unspents := Some found \<rparr>) = (Inr r1, t1)" and
    s: "setFees None t1 = (Inr fee, t2)" and
    b: "buildOutputs addOutput addr None None t2 = (Inr (), t')" and
    tx: "tx = (recoveryTx_ins t', recoveryTx_outs t')"
    by blast
  from buildInputs_result[OF i] have c: "sourceCoin t1 = sourceCoin t" by simp
  from setFees_result[OF s] obtain ti2 where
    ti2: "this_txInfo t2 = Some ti2" "minerFee ti2 = fee"
    and fee: "fee = feeRates (sourceCoin t1) *
                (P2SH_INPUT_SIZE * int (length (recoveryTx_ins t1)) + OUTPUT_SIZE + TX_OVERHEAD_SIZE)"
    and ins: "recoveryTx_ins t2 = recoveryTx_ins t1"
    by auto
  from buildOutputs_default_amount[OF b ti2(1)] obtain ti where
    ti: "this_txInfo t' = Some ti" "minerFee ti = minerFee ti2"
      "inputAmount ti = outputAmount ti + minerFee ti" "0 < outputAmount ti" by blast
  from buildOutputs_tx[OF b] have "recoveryTx_ins t' = recoveryTx_ins t2" by simp
  with ti ti2 fee ins c tx show ?thesis
    by (simp add: P2SH_INPUT_SIZE_def OUTPUT_SIZE_def TX_OVERHEAD_SIZE_def)
qed

theorem buildTransaction_fee_only_below_inputs_witness:
  "fst (buildTransaction accept_all accept_all [ex_unspent ''aa:0'' ''3MJybW'' 10000] ''1Dest''
        (ex_tool BCH BTC)) = Inr ([''aa:0''], [(''1Dest'', 3220)])
   \<and> (\<exists>ti. this_txInfo (snd (buildTransaction accept_all accept_all
                [ex_unspent ''aa:0'' ''3MJybW'' 10000] ''1Dest'' (ex_tool BCH BTC))) = Some ti
           \<and> minerFee ti = 6780 \<and> minerFee ti < inputAmount ti)"
proof -
  from ex_build obtain t' where
    h: "buildTransaction accept_all accept_all [ex_unspent ''aa:0'' ''3MJybW'' 10000] ''1Dest''
        (ex_tool BCH BTC) = (Inr ([''aa:0''], [(''1Dest'', 3220)]), t')" by blast
  from buildTransaction_fee_only_below_inputs[OF h] h show ?thesis by (simp add: ex_tool_def)
qed

lemma buildInputs_loop_known:
  assumes "\<forall>ins i. addInput ins i"
    and "find (\<lambda>address. a_address address = addr) (addresses_dest t) = Some a"
    and "\<forall>u\<in>set us. u_address u = addr \<and> \<not> truthy_str (u_witnessScript u)"
  shows "buildInputs_loop addInput ns us ti t =
           (Completed (ti\<lparr> inputs := inputs ti
                               @ map (\<lambda>u. \<lparr> in_unspent = u, in_data = make_inputData t a u \<rparr>) us,
                            inputAmount := inputAmount ti + sum_list (map u_value us) \<rparr>),
            t\<lparr> recoveryTx_ins := recoveryTx_ins t @ map u_id us \<rparr>)"
  using assms(2,3)
proof (induction us arbitrary: ti t)
  case Nil
  then show ?case by simp
next
  case (Cons u us)
  let ?t' = "t\<lparr> recoveryTx_ins := recoveryTx_ins t @ [u_id u] \<rparr>"
  have f: "find (\<lambda>address. a_address address = addr) (addresses_dest ?t') = Some a"
    using Cons.prems(1) by simp
  have m: "make_inputData ?t' a = make_inputData t a"
    by (rule ext) (simp add: make_inputData_def)
  from Cons.prems have u: "u_address u = addr" "\<not> truthy_str (u_witnessScript u)"
    and rest: "\<forall>u\<in>set us. u_address u = addr \<and> \<not> truthy_str (u_witnessScript u)"
    by simp_all
  from assms(1) have ok: "addInput (recoveryTx_ins t) (u_id u)" by simp
  show ?case
    using Cons.prems(1) u ok
    by (simp add: Cons.IH[OF f rest] m add.assoc)
qed

lemma ex_unspents_length: "length (ex_unspents k) = k"
  by (simp add: ex_unspents_def)

lemma ex_unspents_sum: "sum_list (map u_value (ex_unspents k)) = 100000 * int k"
  by (induction k) (simp_all add: ex_unspents_def ex_unspent_def)

lemma ex_unspents_known:
  "\<forall>u\<in>set (ex_unspents k). u_address u = ''3MJybW'' \<and> \<not> truthy_str (u_witnessScript u)"
  by (auto simp: ex_unspents_def ex_unspent_def truthy_str_def)

lemma ex_build_many:
  "fst (buildTransaction accept_all accept_all (ex_unspents 424) ''1Dest'' (ex_tool BTC BCH))
     = Inr (map u_id (ex_unspents 424), [(''1Dest'', 32390080)])"
proof -
  define t where "t = (ex_tool BTC BCH)\<lparr> this_unspents := Some (ex_unspents 424) \<rparr>"
  have sel: "sourceCoin t = BTC" "recoveryCoin t = BCH" "recoveryTx_ins t = []"
    "recoveryTx_outs t = []" "this_unspents t = Some (ex_unspents 424)"
    "addresses_dest t = [ex_address]"
    by (simp_all add: t_def ex_tool_def)
  have acc: "\<forall>ins i. accept_all ins (i :: string)" by (simp add: accept_all_def)
  have f: "find (\<lambda>address. a_address address = ''3MJybW'') (addresses_dest t) = Some ex_address"
    by (simp add: sel ex_address_def)
  have l: "buildInputs_loop accept_all False (ex_unspents 424) new_txInfo t =
           (Completed (new_txInfo\<lparr> inputs := inputs new_txInfo
                 @ map (\<lambda>u. \<lparr> in_unspent = u, in_data = make_inputData t ex_address u \<rparr>)
                     (ex_unspents 424),
               inputAmount := inputAmount new_txInfo
                 + sum_list (map u_value (ex_unspents 424)) \<rparr>),
            t\<lparr> recoveryTx_ins := recoveryTx_ins t @ map u_id (ex_unspents 424) \<rparr>)"
    by (rule buildInputs_loop_known[OF acc f ex_unspents_known])
  have "fst (buildTransaction accept_all accept_all (ex_unspents 424) ''1Dest'' (ex_tool BTC BCH))
        = fst (case buildInputs accept_all None t of
           (Inl e, t1) \<Rightarrow> (Inl e, t1)
         | (Inr _, t1) \<Rightarrow>
             (case setFees None t1 of
                (Inl e, t2) \<Rightarrow> (Inl e, t2)
              | (Inr _, t2) \<Rightarrow>
                  (case buildOutputs accept_all ''1Dest'' None None t2 of
                     (Inl e, t3) \<Rightarrow> (Inl e, t3)
                   | (Inr _, t3) \<Rightarrow> (Inr (recoveryTx_ins t3, recoveryTx_outs t3), t3))))"
    by (simp add: buildTransaction_def t_def Let_def)
  also have "\<dots> = Inr (map u_id (ex_unspents 424), [(''1Dest'', 32390080)])"
    by (simp add: buildInputs_def sel l)
       (simp add: setFees_def buildOutputs_def Let_def sel
          ex_unspents_length ex_unspents_sum falsy_def js_or_def new_txInfo_def P2SH_INPUT_SIZE_def
          OUTPUT_SIZE_def TX_OVERHEAD_SIZE_def accept_all_def)
  finally show ?thesis .
qed

text \<open>
  Claim C5 as stated fails: both transactions below are built, although their fees lie
  outside the only fee band the repository defines, that of the litecoin recovery
  command. One bch unspent of 10000 satoshi gives a fee of 6780, which that band rejects
  as too low; 424 btc unspents of 100000 satoshi each give a fee of
  \<open>80 * (295 * 424 + 44) = 10009920\<close>, which it rejects as too high.
\<close>

theorem buildTransaction_fee_band_counterexample:
  "fst (buildTransaction accept_all accept_all [ex_unspent ''aa:0'' ''3MJybW'' 10000] ''1Dest''
        (ex_tool BCH BTC)) = Inr ([''aa:0''], [(''1Dest'', 3220)])
   \<and> map_option minerFee (this_txInfo (snd (buildTransaction accept_all accept_all
        [ex_unspent ''aa:0'' ''3MJybW'' 10000] ''1Dest'' (ex_tool BCH BTC)))) = Some 6780
   \<and> ltc_fee_check 10000 3220 = Inl FeeTooLow
   \<and> fst (buildTransaction accept_all accept_all (ex_unspents 424) ''1Dest'' (ex_tool BTC BCH))
        = Inr (map u_id (ex_unspents 424), [(''1Dest'', 32390080)])
   \<and> sum_list (map u_value (ex_unspents 424)) = 42400000
   \<and> ltc_fee_check 42400000 32390080 = Inl FeeTooHigh"
proof -
  have "fst (buildTransaction accept_all accept_all [ex_unspent ''aa:0'' ''3MJybW'' 10000]
          ''1Dest'' (ex_tool BCH BTC)) = Inr ([''aa:0''], [(''1Dest'', 3220)])
   \<and> map_option minerFee (this_txInfo (snd (buildTransaction accept_all accept_all
        [ex_unspent ''aa:0'' ''3MJybW'' 10000] ''1Dest'' (ex_tool BCH BTC)))) = Some 6780"
    by (simp add: ex_defs)
  moreover have "ltc_fee_check 10000 3220 = Inl FeeTooLow"
    "ltc_fee_check 42400000 32390080 = Inl FeeTooHigh"
    by (simp_all add: ltc_fee_check_def)
  moreover have "sum_list (map u_value (ex_unspents 424)) = 42400000"
    by (simp add: ex_unspents_sum)
  ultimately show ?thesis using ex_build_many by simp
qed

text \<open>
  Claim C4 fails on the code. With a first unspent on an address that has no record and a
  second one on a known address, \<^verbatim>\<open>buildInputs\<close> leaves through the bare \<^verbatim>\<open>return;\<close>:
  it returns \<^verbatim>\<open>undefined\<close>, adds no input for the second unspent and never sets
  \<^verbatim>\<open>this.txInfo\<close>, so that \<^verbatim>\<open>buildTransaction\<close> then fails in \<^verbatim>\<open>setFees\<close>.
\<close>

theorem buildInputs_missing_record_returns_early:
  "buildInputs accept_all
      (Some [ex_unspent ''aa:0'' ''unknown'' 5000, ex_unspent ''bb:1'' ''3MJybW'' 70000])
      (ex_tool BCH BTC) = (Inr None, ex_tool BCH BTC)
   \<and> this_txInfo (ex_tool BCH BTC) = None
   \<and> fst (buildTransaction accept_all accept_all
        [ex_unspent ''aa:0'' ''unknown'' 5000, ex_unspent ''bb:1'' ''3MJybW'' 70000] ''1Dest''
        (ex_tool BCH BTC)) = Inl TypeError"
  by (simp add: ex_defs)


section \<open>Properties of split keys\<close>

lemma sharing_ok_length:
  "sharing_ok L \<Longrightarrow> secrets_share L seed n m = Some shares \<Longrightarrow> 2 \<le> m \<Longrightarrow> m \<le> n
     \<Longrightarrow> length shares = nat n"
  unfolding sharing_ok_def by blast

lemma sharing_ok_combine:
  "sharing_ok L \<Longrightarrow> secrets_share L seed n m = Some shares \<Longrightarrow> 2 \<le> m \<Longrightarrow> m \<le> n
     \<Longrightarrow> distinct idxs \<Longrightarrow> set idxs \<subseteq> {..<nat n} \<Longrightarrow> int (length idxs) = m
     \<Longrightarrow> secrets_combine L (map ((!) shares) idxs) = Some seed"
  unfolding sharing_ok_def by blast

lemma those_Some_iff: "those xs = Some ys \<longleftrightarrow> xs = map Some ys"
proof (induction xs arbitrary: ys)
  case Nil
  then show ?case by auto
next
  case (Cons x xs)
  then show ?case by (cases x; cases ys) (auto split: option.splits)
qed

lemma map_all_Some:
  "\<forall>x\<in>set xs. \<exists>y. f x = Some y \<Longrightarrow> \<exists>ys. map f xs = map Some ys"
proof (induction xs)
  case Nil
  then show ?case by simp
next
  case (Cons x xs)
  then obtain y ys where "f x = Some y" "map f xs = map Some ys" by auto
  then have "map f (x # xs) = map Some (y # ys)" by simp
  then show ?case by blast
qed

lemma encryptShares_Some:
  assumes "encryptShares L password shares = Some enc"
  shows "length enc = length shares
         \<and> (\<forall>i<length shares. \<exists>pw. password i = Some pw
                \<and> enc ! i = bitgo_encrypt L pw (shares ! i))"
proof -
  define f where "f = (\<lambda>(sh, shareIndex::nat).
     map_option (\<lambda>pw. bitgo_encrypt L pw sh) (password shareIndex))"
  from assms have eq: "map f (zip shares [0..<length shares]) = map Some enc"
    by (simp add: encryptShares_def those_Some_iff f_def)
  have "length (map f (zip shares [0..<length shares])) = length shares" by simp
  with eq have len: "length enc = length shares" by simp
  have "\<exists>pw. password i = Some pw \<and> enc ! i = bitgo_encrypt L pw (shares ! i)"
    if i: "i < length shares" for i
  proof -
    have "map f (zip shares [0..<length shares]) ! i = f (shares ! i, i)"
      using i by simp
    moreover have "map Some enc ! i = Some (enc ! i)"
      using i len by simp
    ultimately have "f (shares ! i, i) = Some (enc ! i)"
      using eq by simp
    then show ?thesis by (auto simp: f_def)
  qed
  with len show ?thesis by simp
qed

lemma decryptShares_zip:
  assumes "length pws = length idxs"
    and "\<forall>k<length idxs. idxs ! k < length enc
            \<and> sjcl_decrypt L (pws ! k) (enc ! (idxs ! k)) = Some (shares ! (idxs ! k))"
  shows "decryptShares L (zip idxs pws) enc = Some (map ((!) shares) idxs)"
proof -
  have "map (\<lambda>(shareIndex, password).
                   if shareIndex < length enc
                   then sjcl_decrypt L password (enc ! shareIndex) else None)
              (zip idxs pws) = map Some (map ((!) shares) idxs)"
    using assms by (intro nth_equalityI) auto
  then show ?thesis by (simp add: decryptShares_def those_Some_iff)
qed

lemma genSplitKey_shares:
  assumes c: "cipher_ok L" and sh: "sharing_ok L"
    and v: "valid_m_n (p_m params) (p_n params)"
    and gk: "genKey L rng = (Inr key, rng1)"
    and gs: "genSplitKey L params rng = (Inr sk, rng')"
  shows "\<exists>shares. length shares = nat (p_n params)
           \<and> length (sk_seedShares sk) = nat (p_n params)
           \<and> (\<forall>i<nat (p_n params). \<exists>pw. p_password params i = Some pw
                  \<and> sk_seedShares sk ! i = bitgo_encrypt L pw (shares ! i))
           \<and> (\<forall>idxs. distinct idxs \<and> set idxs \<subseteq> {..<nat (p_n params)}
                  \<and> int (length idxs) = p_m params
                  \<longrightarrow> recombine L (map ((!) shares) idxs) = Some (k_seed key))
           \<and> sk_xpub sk = k_xpub key \<and> sk_m sk = p_m params \<and> sk_n sk = p_n params
           \<and> HDNode_fromSeedHex L (k_seed key) = Some (k_xpub key, k_xprv key)"
proof -
  from gk have hd: "HDNode_fromSeedHex L (k_seed key) = Some (k_xpub key, k_xprv key)"
    by (auto simp: genKey_def Let_def split: prod.splits option.splits)
  from gs gk obtain shares where
    shares: "(if p_n params = 1 then Some [k_seed key]
              else secrets_share L (k_seed key) (p_n params) (p_m params)) = Some shares"
    and enc: "encryptShares L (p_password params) shares = Some (sk_seedShares sk)"
    and meta: "sk_xpub sk = k_xpub key" "sk_m sk = p_m params" "sk_n sk = p_n params"
    by (auto simp: genSplitKey_def split: option.splits)
  have len: "length shares = nat (p_n params)"
  proof (cases "p_n params = 1")
    case True
    with shares show ?thesis by auto
  next
    case False
    with v have m2: "2 \<le> p_m params" "p_m params \<le> p_n params"
      by (simp_all add: valid_m_n_def)
    from False shares have "secrets_share L (k_seed key) (p_n params) (p_m params) = Some shares"
      by simp
    from sharing_ok_length[OF sh this m2] show ?thesis .
  qed
  have comb: "recombine L (map ((!) shares) idxs) = Some (k_seed key)"
    if idxs: "distinct idxs" "set idxs \<subseteq> {..<nat (p_n params)}"
      "int (length idxs) = p_m params" for idxs
  proof (cases "p_n params = 1")
    case True
    with shares have s1: "shares = [k_seed key]" by simp
    from True v have m1: "p_m params = 1" by (simp add: valid_m_n_def)
    with idxs True obtain i where "idxs = [i]" "i < 1"
      by (cases idxs) auto
    with s1 show ?thesis by (simp add: recombine_def)
  next
    case False
    with v have m2: "2 \<le> p_m params" "p_m params \<le> p_n params"
      by (simp_all add: valid_m_n_def)
    from False shares have "secrets_share L (k_seed key) (p_n params) (p_m params) = Some shares"
      by simp
    from sharing_ok_combine[OF sh this m2 idxs]
    have "secrets_combine L (map ((!) shares) idxs) = Some (k_seed key)" .
    moreover from m2 idxs have "length idxs \<noteq> 1" by auto
    ultimately show ?thesis by (simp add: recombine_def)
  qed
  from encryptShares_Some[OF enc] len have
    "length (sk_seedShares sk) = nat (p_n params)"
    "\<forall>i<nat (p_n params). \<exists>pw. p_password params i = Some pw
                \<and> sk_seedShares sk ! i = bitgo_encrypt L pw (shares ! i)"
    by auto
  with len comb meta hd show ?thesis
    by (intro exI[of _ shares]) simp
qed

text \<open>
  Claim C2. For every valid \<open>(m, n)\<close> and every key that \<^verbatim>\<open>genSplitKey\<close> produces,
  decrypting the shares at any \<open>m\<close> distinct indices with the passwords of those indices
  and recombining them (a single share is the seed itself, several go through the
  combine of the secret sharing) yields the seed that was generated for the key.
\<close>

theorem genSplitKey_recombine:
  assumes c: "cipher_ok L" and sh: "sharing_ok L"
    and v: "valid_m_n (p_m params) (p_n params)"
    and gk: "genKey L rng = (Inr key, rng1)"
    and gs: "genSplitKey L params rng = (Inr sk, rng')"
    and idxs: "distinct idxs" "set idxs \<subseteq> {..<nat (p_n params)}"
      "int (length idxs) = p_m params"
  shows "\<exists>pws shares. map (p_password params) idxs = map Some pws
           \<and> decryptShares L (zip idxs pws) (sk_seedShares sk) = Some shares
           \<and> recombine L shares = Some (k_seed key)"
proof -
  from genSplitKey_shares[OF c sh v gk gs] obtain shares where
    len: "length shares = nat (p_n params)"
      "length (sk_seedShares sk) = nat (p_n params)"
    and each: "\<forall>i<nat (p_n params). \<exists>pw. p_password params i = Some pw
                  \<and> sk_seedShares sk ! i = bitgo_encrypt L pw (shares ! i)"
    and comb: "\<forall>idxs. distinct idxs \<and> set idxs \<subseteq> {..<nat (p_n params)}
                  \<and> int (length idxs) = p_m params
                  \<longrightarrow> recombine L (map ((!) shares) idxs) = Some (k_seed key)"
    by blast
  have in_range: "idxs ! k < nat (p_n params)" if "k < length idxs" for k
    using that idxs(2) by (auto simp: subset_iff)
  have "\<forall>i\<in>set idxs. \<exists>pw. p_password params i = Some pw"
    using each idxs(2) by (auto simp: subset_iff)
  from map_all_Some[OF this] obtain pws where
    pw_eq: "map (p_password params) idxs = map Some pws" by blast
  then have plen: "length pws = length idxs"
    by (metis length_map)
  have pw_nth: "p_password params (idxs ! k) = Some (pws ! k)" if "k < length idxs" for k
  proof -
    from pw_eq have "map (p_password params) idxs ! k = map Some pws ! k" by simp
    with that plen show ?thesis by simp
  qed
  have dec: "decryptShares L (zip idxs pws) (sk_seedShares sk) = Some (map ((!) shares) idxs)"
  proof (rule decryptShares_zip)
    show "length pws = length idxs" by (rule plen)
    show "\<forall>k<length idxs. idxs ! k < length (sk_seedShares sk)
            \<and> sjcl_decrypt L (pws ! k) (sk_seedShares sk ! (idxs ! k)) = Some (shares ! (idxs ! k))"
    proof (intro allI impI)
      fix k assume k: "k < length idxs"
      from in_range[OF k] each obtain pw where
        pw: "p_password params (idxs ! k) = Some pw"
          "sk_seedShares sk ! (idxs ! k) = bitgo_encrypt L pw (shares ! (idxs ! k))" by blast
      with pw_nth[OF k] have "pws ! k = pw" by simp
      with pw c in_range[OF k] len
      show "idxs ! k < length (sk_seedShares sk)
            \<and> sjcl_decrypt L (pws ! k) (sk_seedShares sk ! (idxs ! k)) = Some (shares ! (idxs ! k))"
        by (simp add: cipher_ok_def)
    qed
  qed
  from comb idxs have rc: "recombine L (map ((!) shares) idxs) = Some (k_seed key)" by blast
  show ?thesis
    by (rule exI[of _ pws], rule exI[of _ "map ((!) shares) idxs"]) (simp only: pw_eq dec rc)
qed

lemma toy_decrypt_encrypt: "toy_decrypt password (toy_encrypt password input) = Some input"
  by (induction password) simp_all


lemma cipher_ok_toy: "cipher_ok toy"
  by (simp add: cipher_ok_def toy_def toy_decrypt_encrypt)


lemma toy_share_Some:
  assumes "toy_share secret n m = Some shares"
  shows "length shares = nat n \<and> (\<forall>i<nat n. tl (shares ! i) = secret)"
  using assms by (auto simp: toy_share_def split: if_splits)

lemma sharing_ok_toy: "sharing_ok toy"
  unfolding sharing_ok_def
proof (intro conjI allI impI)
  fix seed n m shares
  assume "secrets_share toy seed n m = Some shares \<and> 2 \<le> m \<and> m \<le> n"
  then have "toy_share seed n m = Some shares" by (simp add: toy_def)
  from toy_share_Some[OF this] show "length shares = nat n" by simp
next
  fix seed n m shares and idxs :: "nat list"
  assume a: "secrets_share toy seed n m = Some shares \<and> 2 \<le> m \<and> m \<le> n \<and>
        distinct idxs \<and> set idxs \<subseteq> {..<nat n} \<and> int (length idxs) = m"
  then have s: "toy_share seed n m = Some shares" by (simp add: toy_def)
  from a obtain i j rest where ij: "idxs = i # j # rest"
    by (cases idxs; cases "tl idxs") auto
  with a have "i < nat n" by simp
  with toy_share_Some[OF s] have "tl (shares ! i) = seed" by simp
  with ij show "secrets_combine toy (map ((!) shares) idxs) = Some seed"
    by (simp add: toy_def toy_combine_def)
qed

lemma ex_genKey:
  "genKey toy 0 = (Inr \<lparr> k_seed = ''5eed'', k_xpub = ''xpub5eed'', k_xprv = ''xprv5eed'' \<rparr>, 1)"
  by code_simp

lemma ex_genSplitKey: "genSplitKey toy ex_params 0 = (Inr ex_split_key, 1)"
  by code_simp

text \<open>
  The example of the specification: split 2 of 3, then recombine the shares 1 and 2,
  leaving share 0 out.
\<close>

theorem genSplitKey_recombine_witness:
  "\<exists>pws shares. map (p_password ex_params) [1, 2] = map Some pws
     \<and> decryptShares toy (zip [1, 2] pws) (sk_seedShares ex_split_key) = Some shares
     \<and> recombine toy shares = Some ''5eed''"
proof -
  have v: "valid_m_n (p_m ex_params) (p_n ex_params)"
    by (simp add: valid_m_n_def ex_params_def)
  have i: "distinct [1, 2::nat]" "set [1, 2::nat] \<subseteq> {..<nat (p_n ex_params)}"
    "int (length [1, 2::nat]) = p_m ex_params"
    by (simp_all add: ex_params_def)
  from genSplitKey_recombine[OF cipher_ok_toy sharing_ok_toy v ex_genKey ex_genSplitKey i]
  show ?thesis by simp
qed


section \<open>Properties of the batch file and of the intake\<close>


lemma generate_indices:
  "generate L params idxs rng = (Inr keys, rng') \<Longrightarrow> map kr_index keys = map int idxs"
proof (induction idxs arbitrary: rng keys)
  case Nil
  then show ?case by simp
next
  case (Cons index rest)
  from Cons.prems obtain k rng1 ks where
    "generate L params rest rng1 = (Inr ks, rng')"
    and keys: "keys = k # ks" "kr_index k = int index"
    by (fastforce split: prod.splits sum.splits)
  from Cons.IH[OF this(1)] keys show ?case by simp
qed

lemma select_agree:
  assumes "map kr_index keys = map int [0..<length keys]"
  shows "select_by_position keys indices = select_by_index_field keys indices"
proof -
  have nth: "kr_index (keys ! i) = int i" if "i < length keys" for i
  proof -
    from assms have "map kr_index keys ! i = map int [0..<length keys] ! i" by simp
    with that show ?thesis by simp
  qed
  have z: "zip keys [0..<length keys] = map (\<lambda>i. (keys ! i, i)) [0..<length keys]"
    by (rule nth_equalityI) simp_all
  have k: "keys = map ((!) keys) [0..<length keys]"
    by (simp add: map_nth)
  have "select_by_position keys indices
        = map ((!) keys) (filter (\<lambda>i. int i \<in> set indices) [0..<length keys])"
    by (simp add: select_by_position_def z filter_map comp_def)
  also have "filter (\<lambda>i. int i \<in> set indices) [0..<length keys]
        = filter (\<lambda>i. kr_index (keys ! i) \<in> set indices) [0..<length keys]"
    by (rule filter_cong) (simp_all add: nth)
  also have "map ((!) keys) (filter (\<lambda>i. kr_index (keys ! i) \<in> set indices) [0..<length keys])
        = filter (\<lambda>key. kr_index key \<in> set indices) (map ((!) keys) [0..<length keys])"
    by (simp add: filter_map comp_def)
  also have "\<dots> = select_by_index_field keys indices"
    using k by (simp add: select_by_index_field_def)
  finally show ?thesis .
qed

lemma range_length_number:
  assumes "number_of toNumber v = Some (of_nat k)"
  shows "range_length toNumber v = k"
proof (cases v)
  case None
  with assms show ?thesis by (simp add: number_of_def)
next
  case (Some x)
  show ?thesis
  proof (cases x)
    case (JStr s)
    with Some assms show ?thesis by (simp add: number_of_def range_length_def)
  next
    case (JNum e)
    with Some assms have "(of_int e :: rat) = of_int (int k)" by (simp add: number_of_def)
    then have "e = int k" by (simp only: of_int_eq_iff)
    with Some JNum show ?thesis by (simp add: range_length_def)
  qed
qed

lemma parse_indices_sorted: "sorted (parse_indices ks)"
  by (simp add: parse_indices_def)

lemma parse_indices_distinct: "distinct (parse_indices ks)"
  by (simp add: parse_indices_def uniq_def)

lemma sorted_between:
  assumes "sorted xs" and "x \<in> set xs"
  shows "hd xs \<le> x \<and> x \<le> last (xs :: int list)"
  using assms
proof (induction xs)
  case Nil
  then show ?case by simp
next
  case (Cons a xs)
  then show ?case by (cases "xs = []") auto
qed

lemma filter_requested:
  assumes s: "sorted idx" and d: "distinct idx" and ne: "idx \<noteq> []"
    and lo: "0 \<le> hd idx" and hi: "last idx < int n"
  shows "filter (\<lambda>i. i \<in> set idx) (map int [0..<n]) = idx"
proof (rule sorted_distinct_set_unique)
  show "sorted (filter (\<lambda>i. i \<in> set idx) (map int [0..<n]))"
    by (rule sorted_wrt_filter) (simp add: sorted_map)
  show "distinct (filter (\<lambda>i. i \<in> set idx) (map int [0..<n]))"
    by (simp add: distinct_map inj_on_def)
  show "sorted idx" by (rule s)
  show "distinct idx" by (rule d)
  have "x \<in> int ` {0..<n}" if "x \<in> set idx" for x
  proof -
    from sorted_between[OF s that] lo hi have "0 \<le> x" "x < int n" by simp_all
    then have "nat x \<in> {0..<n}" "x = int (nat x)" by simp_all
    then show ?thesis by (rule_tac image_eqI)
  qed
  then show "set (filter (\<lambda>i. i \<in> set idx) (map int [0..<n])) = set idx"
    by auto
qed

lemma select_index_fields:
  assumes m: "map kr_index keys = map int [0..<length keys]"
    and s: "sorted idx" and d: "distinct idx" and ne: "idx \<noteq> []"
    and lo: "0 \<le> hd idx" and hi: "last idx < int (length keys)"
  shows "map kr_index (select_by_index_field keys idx) = idx"
proof -
  have "map kr_index (select_by_index_field keys idx)
        = filter (\<lambda>i. i \<in> set idx) (map kr_index keys)"
    by (simp add: select_by_index_field_def filter_map comp_def)
  also have "\<dots> = idx" unfolding m by (rule filter_requested[OF s d ne lo hi])
  finally show ?thesis .
qed

text \<open>
  Claim C10. In every batch file that \<^verbatim>\<open>handleSplitKeys\<close> writes, the record at
  position \<open>i\<close> has the index field \<open>i\<close>, and when \<^verbatim>\<open>nkeys\<close> is a natural number
  \<open>k\<close> the file holds \<open>k\<close> records, so the index fields are \<open>0, \<dots>, k - 1\<close>. On such a
  file \<^verbatim>\<open>handleRecoverKeys\<close>, which selects by position, returns what a selection by
  the index field returns, with the same errors, and the index fields of the selected
  records are the requested indices.
\<close>

theorem handleSplitKeys_index_is_position:
  assumes inp: "splitKeys_input toNumber L args tape rng = Some (input, tape', rng')"
    and out: "handleSplitKeys toNumber L args tape rng = Some (Inr out)"
    and fl: "fs (js_string (sel F_file)) = Some (snd (out_json out))"
  shows "(\<forall>i<length (snd (out_json out)). kr_index (snd (out_json out) ! i) = int i)
         \<and> (\<forall>k. number_of toNumber (input F_nkeys) = Some (of_nat k)
                \<longrightarrow> length (snd (out_json out)) = k)
         \<and> recoverKeys_select fs sel =
             (case sel F_keys of
                Some (JStr ks) \<Rightarrow>
                  if parse_indices ks = [] then Inl NoIndices
                  else if hd (parse_indices ks) < 0
                          \<or> last (parse_indices ks) \<ge> int (length (snd (out_json out)))
                  then Inl (IndexOutOfRange (length (snd (out_json out))))
                  else Inr (select_by_index_field (snd (out_json out)) (parse_indices ks))
              | _ \<Rightarrow> Inl KeysNotAString)
         \<and> (\<forall>rs ks. recoverKeys_select fs sel = Inr rs \<and> sel F_keys = Some (JStr ks)
                \<longrightarrow> map kr_index rs = parse_indices ks)"
proof -
  define keys where "keys = snd (out_json out)"
  from inp out obtain params rng2 where
    g: "generate L params [0..<range_length toNumber (input F_nkeys)] rng' = (Inr keys, rng2)"
    by (auto simp: handleSplitKeys_def splitKeys_generate_def keys_def
             split: option.splits prod.splits sum.splits)
  from generate_indices[OF g] have
    m: "map kr_index keys = map int [0..<range_length toNumber (input F_nkeys)]" .
  then have len: "length keys = range_length toNumber (input F_nkeys)"
    by (metis length_map length_upt diff_zero)
  with m have m': "map kr_index keys = map int [0..<length keys]"
    by simp
  have a: "kr_index (keys ! i) = int i" if "i < length keys" for i
  proof -
    from m' have "map kr_index keys ! i = map int [0..<length keys] ! i" by simp
    with that show ?thesis by simp
  qed
  have b: "length keys = k" if "number_of toNumber (input F_nkeys) = Some (of_nat k)" for k
    using range_length_number[OF that] len by simp
  have c: "recoverKeys_select fs sel =
             (case sel F_keys of
                Some (JStr ks) \<Rightarrow>
                  if parse_indices ks = [] then Inl NoIndices
                  else if hd (parse_indices ks) < 0 \<or> last (parse_indices ks) \<ge> int (length keys)
                  then Inl (IndexOutOfRange (length keys))
                  else Inr (select_by_index_field keys (parse_indices ks))
              | _ \<Rightarrow> Inl KeysNotAString)"
    using fl
    by (simp add: recoverKeys_select_def Let_def keys_def[symmetric] select_agree[OF m']
          split: option.splits jsval.splits)
  have d: "map kr_index rs = parse_indices ks"
    if "recoverKeys_select fs sel = Inr rs" "sel F_keys = Some (JStr ks)" for rs ks
  proof -
    from that c have ne: "parse_indices ks \<noteq> []"
      and lo: "0 \<le> hd (parse_indices ks)" and hi: "last (parse_indices ks) < int (length keys)"
      and rs: "rs = select_by_index_field keys (parse_indices ks)"
      by (auto split: if_splits)
    from select_index_fields[OF m' parse_indices_sorted parse_indices_distinct ne lo hi] rs
    show ?thesis by simp
  qed
  from a b c d show ?thesis unfolding keys_def by blast
qed

lemma ex_handleSplitKeys:
  "handleSplitKeys decimal_number toy (\<lambda>_. None)
     [''3'', ''2'', ''2'', '''', '''', ''a'', ''a'', ''b'', ''b'', ''c'', ''c''] 0
   = Some (Inr \<lparr> out_json = (''keys.json'', ex_file),
                  out_csv = (''keys.xpub.csv'', [''0,xpub5eed'', ''1,xpub5eed0'']) \<rparr>)"
  by code_simp

lemma ex_splitKeys_input:
  "map_option (\<lambda>(input, tape, rng). input F_nkeys)
     (splitKeys_input decimal_number toy (\<lambda>_. None)
        [''3'', ''2'', ''2'', '''', '''', ''a'', ''a'', ''b'', ''b'', ''c'', ''c''] 0)
   = Some (Some (JStr ''2''))"
  by code_simp

lemma decimal_number_2: "decimal_number ''2'' = Some (of_nat 2)"
  by (simp add: decimal_number_def trim_def is_space_def is_digit_def digits_value_def)

lemma ex_select_1:
  "recoverKeys_select (ex_fs ex_file)
     ((\<lambda>_. None)(F_file := Some (JStr ''keys.json''), F_keys := Some (JStr ''1'')))
   = Inr [ex_file ! 1]"
  by code_simp

text \<open>
  A batch of two keys, 2 of 3, and the selection of the key 1 from its file.
\<close>

theorem handleSplitKeys_index_is_position_witness:
  "handleSplitKeys decimal_number toy (\<lambda>_. None)
     [''3'', ''2'', ''2'', '''', '''', ''a'', ''a'', ''b'', ''b'', ''c'', ''c''] 0
   = Some (Inr \<lparr> out_json = (''keys.json'', ex_file),
                  out_csv = (''keys.xpub.csv'', [''0,xpub5eed'', ''1,xpub5eed0'']) \<rparr>)
   \<and> length ex_file = 2 \<and> kr_index (ex_file ! 0) = 0 \<and> kr_index (ex_file ! 1) = 1
   \<and> recoverKeys_select (ex_fs ex_file)
        ((\<lambda>_. None)(F_file := Some (JStr ''keys.json''), F_keys := Some (JStr ''1'')))
      = Inr (select_by_index_field ex_file [1])
   \<and> select_by_index_field ex_file [1] = [ex_file ! 1]
   \<and> map kr_index [ex_file ! 1] = [1]"
proof -
  from ex_splitKeys_input obtain input tape' rng' where
    inp: "splitKeys_input decimal_number toy (\<lambda>_. None)
        [''3'', ''2'', ''2'', '''', '''', ''a'', ''a'', ''b'', ''b'', ''c'', ''c''] 0
      = Some (input, tape', rng')"
    and nk: "input F_nkeys = Some (JStr ''2'')"
    by (auto simp: map_option_case split: option.splits)
  define sel :: user_input where
    "sel = (\<lambda>_. None)(F_file := Some (JStr ''keys.json''), F_keys := Some (JStr ''1''))"
  have fl: "ex_fs ex_file (js_string (sel F_file))
            = Some (snd (out_json \<lparr> out_json = (''keys.json'', ex_file),
                  out_csv = (''keys.xpub.csv'', [''0,xpub5eed'', ''1,xpub5eed0'']) \<rparr>))"
    by (simp add: sel_def ex_fs_def js_string_def)
  have n2: "number_of decimal_number (input F_nkeys) = Some (of_nat 2)"
    by (simp add: nk number_of_def decimal_number_2)
  have p1: "parse_indices ''1'' = [1]" by code_simp
  have s1: "select_by_index_field ex_file [1] = [ex_file ! 1]" by code_simp
  from handleSplitKeys_index_is_position[where fs = "ex_fs ex_file" and sel = sel,
      OF inp ex_handleSplitKeys fl] n2
  have "(\<forall>i<length ex_file. kr_index (ex_file ! i) = int i)"
    and "length ex_file = 2"
    and "recoverKeys_select (ex_fs ex_file) sel = Inr (select_by_index_field ex_file [1])"
    and "\<forall>rs ks. recoverKeys_select (ex_fs ex_file) sel = Inr rs \<and> sel F_keys = Some (JStr ks)
            \<longrightarrow> map kr_index rs = parse_indices ks"
    by (simp_all add: sel_def p1)
  with s1 p1 ex_handleSplitKeys show ?thesis
    by (simp add: sel_def)
qed

lemma decimal_number_200000: "decimal_number ''200000'' = Some 200000"
  by (simp add: decimal_number_def trim_def is_space_def is_digit_def digits_value_def)

declare getIntVariable.simps [simp del]
declare UserInput_getPassword.simps [simp del]
declare splitKeys_getPassword.simps [simp del]

lemma getVariable_frame:
  assumes "getVariable name required dv (self, tape) = Some (self', tape')" and "f \<noteq> name"
  shows "self' f = self f"
  using assms by (auto simp: getVariable_def split: if_splits option.splits)

lemma checkInt_range:
  assumes "checkInt toNumber x mn mx = Inr v"
  shows "mn \<le> v \<and> (\<forall>b. mx = Some b \<longrightarrow> v \<le> b)"
  using assms by (auto simp: checkInt_def Let_def split: if_splits option.splits)

lemma getIntVariable_required:
  "getIntVariable toNumber name required mn mx st = Some (self', tape') \<Longrightarrow> required
     \<Longrightarrow> (\<exists>v. self' name = Some (JNum v) \<and> mn \<le> v \<and> (\<forall>b. mx = Some b \<longrightarrow> v \<le> b))
         \<and> (\<forall>f. f \<noteq> name \<longrightarrow> self' f = fst st f)"
proof (induction toNumber name required mn mx st rule: getIntVariable.induct)
  case (1 toNumber name required mn mx st)
  obtain self0 tape0 where st: "st = (self0, tape0)" by (cases st)
  from "1.prems" obtain self tape where
    g: "getVariable name required None st = Some (self, tape)"
    by (subst (asm) getIntVariable.simps) (auto split: option.splits)
  from g st have fr: "\<forall>f. f \<noteq> name \<longrightarrow> self f = self0 f"
    by (auto dest: getVariable_frame)
  show ?case
  proof (cases "checkInt toNumber (self name) mn mx")
    case (Inr v)
    with "1.prems" g have "self' = self(name := Some (JNum v))"
      by (subst (asm) getIntVariable.simps) simp
    with checkInt_range[OF Inr] fr st show ?thesis by simp
  next
    case (Inl err)
    with "1.prems" g have
      r: "getIntVariable toNumber name required mn mx (self(name := None), tape)
          = Some (self', tape')"
      by (subst (asm) getIntVariable.simps) simp
    from "1.IH"[OF g refl Inl "1.prems"(2) r "1.prems"(2)] fr st show ?thesis by simp
  qed
qed

lemma UserInput_getPassword_frame:
  "UserInput_getPassword name confirm st = Some st' \<Longrightarrow> f \<noteq> name \<Longrightarrow> fst st' f = fst st f"
proof (induction name confirm st rule: UserInput_getPassword.induct)
  case (1 name confirm self tape)
  show ?case
  proof (cases "truthy (self name)")
    case True
    with "1.prems" show ?thesis by (subst (asm) UserInput_getPassword.simps) simp
  next
    case False
    from "1.prems"(1) False obtain password tape1 where
      p: "promptPassword False tape = Some (password, tape1)"
      by (subst (asm) UserInput_getPassword.simps) (auto split: option.splits)
    show ?thesis
    proof (cases confirm)
      case False
      with "1.prems" \<open>\<not> truthy (self name)\<close> p show ?thesis
        by (subst (asm) UserInput_getPassword.simps) auto
    next
      case True
      with "1.prems"(1) \<open>\<not> truthy (self name)\<close> p obtain confirmation tape2 where
        c: "promptPassword True tape1 = Some (confirmation, tape2)"
        by (subst (asm) UserInput_getPassword.simps) (auto split: option.splits)
      show ?thesis
      proof (cases "confirmation \<noteq> password")
        case False
        with "1.prems" \<open>\<not> truthy (self name)\<close> p c True show ?thesis
          by (subst (asm) UserInput_getPassword.simps) auto
      next
        case neq: True
        with "1.prems"(1) \<open>\<not> truthy (self name)\<close> p c True have
          "UserInput_getPassword name confirm (self, tape2) = Some st'"
          by (subst (asm) UserInput_getPassword.simps) simp
        from "1.IH"[OF \<open>\<not> truthy (self name)\<close> p refl True c refl neq this "1.prems"(2)]
        show ?thesis by simp
      qed
    qed
  qed
qed

lemma splitKeys_getPassword_frame:
  "splitKeys_getPassword i n st = Some st' \<Longrightarrow> \<forall>j. f \<noteq> F_password j
     \<Longrightarrow> fst st' f = fst st f"
proof (induction i n st rule: splitKeys_getPassword.induct)
  case (1 i n st)
  show ?case
  proof (cases "int i = n")
    case True
    with "1.prems" show ?thesis by (subst (asm) splitKeys_getPassword.simps) simp
  next
    case False
    with "1.prems"(1) have lt: "\<not> n < int i"
      by (subst (asm) splitKeys_getPassword.simps) (auto split: if_splits)
    with "1.prems"(1) False obtain st1 where
      u: "UserInput_getPassword (F_password i) True st = Some st1"
      and r: "splitKeys_getPassword (i + 1) n st1 = Some st'"
      by (subst (asm) splitKeys_getPassword.simps) (auto split: option.splits)
    from "1.IH"[OF False lt u r "1.prems"(2)]
      UserInput_getPassword_frame[OF u, of f] "1.prems"(2)
    show ?thesis by simp
  qed
qed

text \<open>
  What the intake of \<^verbatim>\<open>handleSplitKeys\<close> does validate: when it completes, \<open>n\<close> and
  \<open>m\<close> hold numbers in the admitted range.
\<close>

lemma splitKeys_input_valid:
  assumes "splitKeys_input toNumber L args tape rng = Some (input, tape', rng')"
  shows "\<exists>n m. input F_n = Some (JNum n) \<and> input F_m = Some (JNum m) \<and> valid_m_n m n"
proof -
  from assms obtain self1 tape1 self2 tape2 self3 tape3 self4 tape4 self5 tape5 n0 where
    s1: "getIntVariable toNumber F_n True 1 (Some 10) (args, tape) = Some (self1, tape1)"
    and s2: "getIntVariable toNumber F_m True (if self1 F_n = Some (JNum 1) then 1 else 2)
               (num (self1 F_n)) (self1, tape1) = Some (self2, tape2)"
    and s3: "getVariable F_nkeys True (Some (JNum 1)) (self2, tape2) = Some (self3, tape3)"
    and s4: "getVariable F_prefix False (Some (JStr ''keys'')) (self3, tape3) = Some (self4, tape4)"
    and s5: "getVariable F_entropy False None (self4, tape4) = Some (self5, tape5)"
    and s6: "splitKeys_getPassword 0 n0 (self5, tape5) = Some (input, tape')"
    by (auto simp: splitKeys_input_def Let_def split: option.splits prod.splits)
  from getIntVariable_required[OF s1] obtain n where
    n: "self1 F_n = Some (JNum n)" "1 \<le> n" "n \<le> 10" by auto
  from getIntVariable_required[OF s2] n obtain m where
    m: "self2 F_m = Some (JNum m)" "(if n = 1 then 1 else 2) \<le> m" "m \<le> n"
    and n2: "self2 F_n = Some (JNum n)"
    by (auto simp: num_def)
  from getVariable_frame[OF s3] getVariable_frame[OF s4] getVariable_frame[OF s5] m n2
  have "self5 F_n = Some (JNum n)" "self5 F_m = Some (JNum m)" by simp_all
  with splitKeys_getPassword_frame[OF s6, of F_n] splitKeys_getPassword_frame[OF s6, of F_m]
  have "input F_n = Some (JNum n)" "input F_m = Some (JNum m)" by simp_all
  with n m show ?thesis by (auto simp: valid_m_n_def)
qed

text \<open>
  Claim C9 fails on the code for \<^verbatim>\<open>nkeys\<close>. The values 11 and then 1 are refused for
  \<open>n\<close> and \<open>m\<close> and asked again, but \<^verbatim>\<open>nkeys\<close> goes through \<^verbatim>\<open>getVariable\<close>, which
  checks nothing: 0 is kept and both files are written without a key, and 200000 is kept
  and is the number of keys the generation then runs for. (\<open>splitKeys_input_valid\<close> is
  the part of the claim that holds.)
\<close>

theorem handleSplitKeys_nkeys_unchecked:
  "handleSplitKeys decimal_number toy (\<lambda>_. None)
     [''3'', ''2'', ''0'', '''', '''', ''a'', ''a'', ''b'', ''b'', ''c'', ''c''] 0
   = Some (Inr \<lparr> out_json = (''keys.json'', []), out_csv = (''keys.xpub.csv'', []) \<rparr>)
   \<and> map_option (\<lambda>(input, tape, rng). (input F_n, input F_m, input F_nkeys, tape))
        (splitKeys_input decimal_number toy (\<lambda>_. None)
           [''11'', ''3'', ''1'', ''2'', ''200000'', '''', '''',
            ''a'', ''a'', ''b'', ''b'', ''c'', ''c''] 0)
     = Some (Some (JNum 3), Some (JNum 2), Some (JStr ''200000''), [])
   \<and> range_length decimal_number (Some (JStr ''200000'')) = 200000"
proof -
  have "handleSplitKeys decimal_number toy (\<lambda>_. None)
     [''3'', ''2'', ''0'', '''', '''', ''a'', ''a'', ''b'', ''b'', ''c'', ''c''] 0
   = Some (Inr \<lparr> out_json = (''keys.json'', []), out_csv = (''keys.xpub.csv'', []) \<rparr>)"
    by code_simp
  moreover have "map_option (\<lambda>(input, tape, rng). (input F_n, input F_m, input F_nkeys, tape))
        (splitKeys_input decimal_number toy (\<lambda>_. None)
           [''11'', ''3'', ''1'', ''2'', ''200000'', '''', '''',
            ''a'', ''a'', ''b'', ''b'', ''c'', ''c''] 0)
     = Some (Some (JNum 3), Some (JNum 2), Some (JStr ''200000''), [])"
    by code_simp
  moreover have "range_length decimal_number (Some (JStr ''200000'')) = 200000"
    by (simp add: range_length_def decimal_number_200000)
  ultimately show ?thesis by (intro conjI)
qed

text \<open>
  Claim C1 fails on the code in verify-only mode. The second record of the file carries an
  xpub that is not the one of its shares: plain recovery stops with the error naming key
  1, verify-only returns the derived xpub and no error, since the comparison is
  guarded by \<^verbatim>\<open>!self.args.verifyonly\<close>.
\<close>

theorem handleRecoverKeys_verifyonly_unchecked:
  "handleRecoverKeys toy True (ex_fs ex_file_corrupt) (\<lambda>_. None)
     [''keys.json'', ''1'', ''c'', ''b'']
   = Some (Inr [\<lparr> rk_index = 1, rk_xpub = ''xpub5eed0'', rk_xprv = None \<rparr>])
   \<and> kr_xpub (ex_file_corrupt ! 1) = ''xpubOTHER''
   \<and> handleRecoverKeys toy False (ex_fs ex_file_corrupt) (\<lambda>_. None)
     [''keys.json'', ''1'', ''c'', ''b'']
   = Some (Inl (XpubsDontMatch 1))"
  by code_simp



section \<open>Properties of the password intake and of the recovery\<close>






declare recoverKeys_getPassword.simps [simp del]































lemma genSplitKey_genKey:
  assumes "genSplitKey L params rng = (Inr sk, rng')"
  shows "\<exists>key. genKey L rng = (Inr key, rng')"
  using assms
  by (auto simp: genSplitKey_def split: prod.splits sum.splits option.splits)

lemma generate_records:
  "generate L params idxs rng = (Inr keys, rng')
     \<Longrightarrow> \<forall>r\<in>set keys. \<exists>key. record_of_key L params r key"
proof (induction idxs arbitrary: rng keys)
  case Nil
  then show ?case by simp
next
  case (Cons index rest)
  from Cons.prems obtain sk rng1 ks where
    gs: "genSplitKey L params rng = (Inr sk, rng1)"
    and g: "generate L params rest rng1 = (Inr ks, rng')"
    and keys: "keys = \<lparr> kr_index = int index, kr_xpub = sk_xpub sk, kr_m = sk_m sk,
                         kr_n = sk_n sk, kr_seedShares = sk_seedShares sk \<rparr> # ks"
    by (auto split: prod.splits sum.splits)
  from genSplitKey_genKey[OF gs] obtain key where gk: "genKey L rng = (Inr key, rng1)" ..
  from gk gs have "record_of_key L params (hd keys) key"
    unfolding record_of_key_def keys by (intro exI[of _ rng] exI[of _ rng1] exI[of _ sk]) simp
  with Cons.IH[OF g] keys show ?case by auto
qed

lemma list_all2_choose:
  "\<forall>x\<in>set xs. \<exists>y. P x y \<Longrightarrow> \<exists>ys. list_all2 P xs ys"
proof (induction xs)
  case Nil
  then show ?case by simp
next
  case (Cons x xs)
  then obtain y ys where "P x y" "list_all2 P xs ys" by auto
  then have "list_all2 P (x # xs) (y # ys)" by simp
  then show ?case ..
qed

lemma select_by_position_subset: "set (select_by_position keys indices) \<subseteq> set keys"
  by (auto simp: select_by_position_def dest: set_zip_leftD)

lemma recoverKeys_select_subset:
  assumes "recoverKeys_select fs input = Inr rs"
  shows "\<exists>keys. fs (js_string (input F_file)) = Some keys \<and> set rs \<subseteq> set keys"
  using assms select_by_position_subset
  by (auto simp: recoverKeys_select_def Let_def split: option.splits jsval.splits if_splits)

lemma promptPassword_nonblank:
  "promptPassword False tape = Some (password, tape') \<Longrightarrow> password \<noteq> []"
  by (induction tape) (auto split: if_splits)

lemma UserInput_getPassword_value:
  "UserInput_getPassword name confirm st = Some st' \<Longrightarrow> fst st name = None
     \<Longrightarrow> \<exists>pw. fst st' name = Some (JStr pw) \<and> pw \<noteq> []"
proof (induction name confirm st rule: UserInput_getPassword.induct)
  case (1 name confirm self tape)
  from "1.prems"(2) have nt: "\<not> truthy (self name)" by (simp add: truthy_def)
  from "1.prems"(1) nt obtain password tape1 where
    p: "promptPassword False tape = Some (password, tape1)"
    by (subst (asm) UserInput_getPassword.simps) (auto split: option.splits)
  from promptPassword_nonblank[OF p] have nb: "password \<noteq> []" .
  show ?case
  proof (cases confirm)
    case False
    with "1.prems" nt p nb show ?thesis
      by (subst (asm) UserInput_getPassword.simps) auto
  next
    case True
    with "1.prems"(1) nt p obtain confirmation tape2 where
      c: "promptPassword True tape1 = Some (confirmation, tape2)"
      by (subst (asm) UserInput_getPassword.simps) (auto split: option.splits)
    show ?thesis
    proof (cases "confirmation \<noteq> password")
      case False
      with "1.prems" nt p c True nb show ?thesis
        by (subst (asm) UserInput_getPassword.simps) auto
    next
      case neq: True
      with "1.prems"(1) nt p c True have
        "UserInput_getPassword name confirm (self, tape2) = Some st'"
        by (subst (asm) UserInput_getPassword.simps) simp
      from "1.IH"[OF nt p refl True c refl neq this] "1.prems"(2)
      show ?thesis by simp
    qed
  qed
qed

lemma splitKeys_getPassword_earlier:
  "splitKeys_getPassword i n st = Some st' \<Longrightarrow> j < i
     \<Longrightarrow> fst st' (F_password j) = fst st (F_password j)"
proof (induction i n st rule: splitKeys_getPassword.induct)
  case (1 i n st)
  show ?case
  proof (cases "int i = n")
    case True
    with "1.prems" show ?thesis by (subst (asm) splitKeys_getPassword.simps) simp
  next
    case False
    with "1.prems"(1) have lt: "\<not> n < int i"
      by (subst (asm) splitKeys_getPassword.simps) (auto split: if_splits)
    with "1.prems"(1) False obtain st1 where
      u: "UserInput_getPassword (F_password i) True st = Some st1"
      and r: "splitKeys_getPassword (i + 1) n st1 = Some st'"
      by (subst (asm) splitKeys_getPassword.simps) (auto split: option.splits)
    from "1.IH"[OF False lt u r] "1.prems"(2)
    have "fst st' (F_password j) = fst st1 (F_password j)" by simp
    with UserInput_getPassword_frame[OF u, of "F_password j"] "1.prems"(2)
    show ?thesis by simp
  qed
qed

lemma splitKeys_getPassword_values:
  "splitKeys_getPassword i n st = Some st' \<Longrightarrow> \<forall>j\<ge>i. fst st (F_password j) = None
     \<Longrightarrow> \<forall>j. i \<le> j \<and> int j < n
              \<longrightarrow> (\<exists>pw. fst st' (F_password j) = Some (JStr pw) \<and> pw \<noteq> [])"
proof (induction i n st rule: splitKeys_getPassword.induct)
  case (1 i n st)
  show ?case
  proof (cases "int i = n")
    case True
    then show ?thesis by auto
  next
    case False
    with "1.prems"(1) have lt: "\<not> n < int i"
      by (subst (asm) splitKeys_getPassword.simps) (auto split: if_splits)
    with "1.prems"(1) False obtain st1 where
      u: "UserInput_getPassword (F_password i) True st = Some st1"
      and r: "splitKeys_getPassword (i + 1) n st1 = Some st'"
      by (subst (asm) splitKeys_getPassword.simps) (auto split: option.splits)
    from "1.prems"(2) have "fst st (F_password i) = None" by simp
    from UserInput_getPassword_value[OF u this] obtain pw where
      pw: "fst st1 (F_password i) = Some (JStr pw)" "pw \<noteq> []" by blast
    have "\<forall>j\<ge>i + 1. fst st1 (F_password j) = None"
    proof (intro allI impI)
      fix j assume "i + 1 \<le> j"
      then have "F_password j \<noteq> F_password i" "i \<le> j" by simp_all
      with UserInput_getPassword_frame[OF u, of "F_password j"] "1.prems"(2)
      show "fst st1 (F_password j) = None" by simp
    qed
    from "1.IH"[OF False lt u r this]
    have later: "\<forall>j. i + 1 \<le> j \<and> int j < n
              \<longrightarrow> (\<exists>pw. fst st' (F_password j) = Some (JStr pw) \<and> pw \<noteq> [])" .
    from splitKeys_getPassword_earlier[OF r, of i] pw
    have here: "\<exists>pw. fst st' (F_password i) = Some (JStr pw) \<and> pw \<noteq> []" by simp
    show ?thesis
    proof (intro allI impI)
      fix j assume j: "i \<le> j \<and> int j < n"
      show "\<exists>pw. fst st' (F_password j) = Some (JStr pw) \<and> pw \<noteq> []"
      proof (cases "j = i")
        case True
        with here show ?thesis by simp
      next
        case False
        with j have "i + 1 \<le> j \<and> int j < n" by simp
        with later show ?thesis by blast
      qed
    qed
  qed
qed

lemma splitKeys_input_passwords:
  assumes inp: "splitKeys_input toNumber L args tape rng = Some (input, tape', rng')"
    and nopw: "\<forall>i. args (F_password i) = None"
  shows "\<exists>n. input F_n = Some (JNum n)
           \<and> (\<forall>j. int j < n \<longrightarrow> (\<exists>pw. input (F_password j) = Some (JStr pw) \<and> pw \<noteq> []))"
proof -
  from inp obtain self1 tape1 self2 tape2 self3 tape3 self4 tape4 self5 tape5 n0 where
    s1: "getIntVariable toNumber F_n True 1 (Some 10) (args, tape) = Some (self1, tape1)"
    and s2: "getIntVariable toNumber F_m True (if self1 F_n = Some (JNum 1) then 1 else 2)
               (num (self1 F_n)) (self1, tape1) = Some (self2, tape2)"
    and s3: "getVariable F_nkeys True (Some (JNum 1)) (self2, tape2) = Some (self3, tape3)"
    and s4: "getVariable F_prefix False (Some (JStr ''keys'')) (self3, tape3) = Some (self4, tape4)"
    and s5: "getVariable F_entropy False None (self4, tape4) = Some (self5, tape5)"
    and n0: "num (self5 F_n) = Some n0"
    and s6: "splitKeys_getPassword 0 n0 (self5, tape5) = Some (input, tape')"
    by (auto simp: splitKeys_input_def Let_def split: option.splits prod.splits)
  have "self5 (F_password j) = None" for j
  proof -
    from getIntVariable_required[OF s1] have "self1 (F_password j) = args (F_password j)" by simp
    moreover from getIntVariable_required[OF s2]
    have "self2 (F_password j) = self1 (F_password j)" by simp
    moreover from getVariable_frame[OF s3, of "F_password j"]
    have "self3 (F_password j) = self2 (F_password j)" by simp
    moreover from getVariable_frame[OF s4, of "F_password j"]
    have "self4 (F_password j) = self3 (F_password j)" by simp
    moreover from getVariable_frame[OF s5, of "F_password j"]
    have "self5 (F_password j) = self4 (F_password j)" by simp
    ultimately show ?thesis using nopw by simp
  qed
  then have "\<forall>j\<ge>0. fst (self5, tape5) (F_password j) = None" by simp
  from splitKeys_getPassword_values[OF s6 this]
  have pw: "\<forall>j. int j < n0 \<longrightarrow> (\<exists>pw. input (F_password j) = Some (JStr pw) \<and> pw \<noteq> [])"
    by simp
  from splitKeys_getPassword_frame[OF s6, of F_n] n0
  have "input F_n = Some (JNum n0)"
    by (auto simp: num_def split: option.splits jsval.splits)
  with pw show ?thesis by blast
qed

text \<open>
  Every file that \<^verbatim>\<open>handleSplitKeys\<close> writes meets what the property above asks of
  the records, but for the passwords being distinct: its records hold keys made under the
  same valid parameters, whose passwords are not empty, and so do the records selected
  from it. (The command has no password argument, so none is set before the intake.)
\<close>

lemma handleSplitKeys_file_records:
  assumes out: "handleSplitKeys toNumber L args tape rng = Some (Inr out)"
    and nopw: "\<forall>i. args (F_password i) = None"
    and fl: "fs (js_string (sel F_file)) = Some (snd (out_json out))"
    and sel: "recoverKeys_select fs sel = Inr rs"
  shows "\<exists>params pw keys. valid_m_n (p_m params) (p_n params)
           \<and> (\<forall>i<nat (p_n params). p_password params i = Some (pw i) \<and> pw i \<noteq> [])
           \<and> list_all2 (record_of_key L params) rs keys"
proof -
  from out obtain input tape' rng' params rng2 where
    inp: "splitKeys_input toNumber L args tape rng = Some (input, tape', rng')"
    and par: "params_of input = Some params"
    and g: "generate L params [0..<range_length toNumber (input F_nkeys)] rng'
            = (Inr (snd (out_json out)), rng2)"
    by (auto simp: handleSplitKeys_def splitKeys_generate_def
             split: option.splits prod.splits sum.splits)
  from splitKeys_input_valid[OF inp] obtain n m where
    nm: "input F_n = Some (JNum n)" "input F_m = Some (JNum m)" "valid_m_n m n" by blast
  with par have p: "p_m params = m" "p_n params = n"
    "p_password params = (\<lambda>i. case input (F_password i) of
                                      Some (JStr pw) \<Rightarrow> Some pw | _ \<Rightarrow> None)"
    by (auto simp: params_of_def num_def)
  define pw where "pw = (\<lambda>i. case input (F_password i) of Some (JStr p) \<Rightarrow> p | _ \<Rightarrow> [])"
  from splitKeys_input_passwords[OF inp nopw] nm(1)
  have typed: "\<forall>j. int j < n \<longrightarrow> (\<exists>p. input (F_password j) = Some (JStr p) \<and> p \<noteq> [])"
    by simp
  have pws: "\<forall>i<nat (p_n params). p_password params i = Some (pw i) \<and> pw i \<noteq> []"
  proof (intro allI impI)
    fix i assume "i < nat (p_n params)"
    with p(2) have "int i < n" by simp
    with typed obtain q where "input (F_password i) = Some (JStr q)" "q \<noteq> []" by blast
    then show "p_password params i = Some (pw i) \<and> pw i \<noteq> []"
      by (simp add: p(3) pw_def)
  qed
  from recoverKeys_select_subset[OF sel] fl have "set rs \<subseteq> set (snd (out_json out))" by simp
  with generate_records[OF g] have "\<forall>r\<in>set rs. \<exists>key. record_of_key L params r key" by blast
  from list_all2_choose[OF this] obtain keys where
    "list_all2 (record_of_key L params) rs keys" ..
  with nm(3) p(1,2) pws show ?thesis by blast
qed

text \<open>
  The passwords of the shares have to differ for the two properties above. Under one
  password \<open>x\<close> for both shares of a key 2 of 2, the first \<open>x\<close> is bound to both shares,
  every further \<open>x\<close> adds no binding and is refused, and the second slot is never filled.
\<close>

lemma handleRecoverKeys_same_password:
  "genSplitKey toy \<lparr> p_m = 2, p_n = 2, p_password = (\<lambda>i. Some ''x'') \<rparr> 0
     = (Inr \<lparr> sk_xpub = ''xpub5eed'', sk_m = 2, sk_n = 2,
              sk_seedShares = [''.x|15eed'', ''.x|25eed''] \<rparr>, 1)
   \<and> handleRecoverKeys toy False
        (ex_fs [\<lparr> kr_index = 0, kr_xpub = ''xpub5eed'', kr_m = 2, kr_n = 2,
                   kr_seedShares = [''.x|15eed'', ''.x|25eed''] \<rparr>])
        (\<lambda>_. None) [''keys.json'', ''0'', ''x'', ''x'', ''x'', ''x'']
     = None"
  by code_simp

end
